theory Spec2Isabelle
  imports Main "HOL-Library.AList"
begin

section \<open>Keys\<close>

text \<open>
  A key is an object of the OpenPGP library. The code of the keyring reads from it the
  primary packet (\<open>key.primaryKey\<close>: fingerprint, key id, creation date), the sub key
  packets (\<open>key.getSubkeyPackets()\<close>) and whether it is public (\<open>key.isPublic()\<close>).
  The user ids stand for the certifications a key carries; the secret material is opaque.
\<close>

record packet =
  fingerprint :: string
  keyid :: string
  created :: nat

record key =
  primaryKey :: packet
  subKeys :: "packet list"
  users :: "string list"
  secretKey :: "string option"

definition isPublic :: "key \<Rightarrow> bool" where
  "isPublic k = (secretKey k = None)"

text \<open>\<open>key.toPublic()\<close>: the same key without its secret material.\<close>

definition toPublic :: "key \<Rightarrow> key" where
  "toPublic k = k\<lparr>secretKey := None\<rparr>"

text \<open>\<open>key.primaryKey.getFingerprint()\<close>\<close>

definition getFingerprint :: "key \<Rightarrow> string" where
  "getFingerprint k = fingerprint (primaryKey k)"

section \<open>The key store\<close>

record keyStore =
  publicKeys :: "key list"
  privateKeys :: "key list"

section \<open>The change log and the sync payload\<close>

datatype changeType = INSERT | DELETE | UPDATE

record stamped =
  time :: nat

record logEntry = stamped +
  logtype :: changeType

record insertedEntry = stamped +
  armored :: string

text \<open>
  A JavaScript object used as a dictionary from fingerprints: an association list in
  insertion order, which is the order \<open>for ... in\<close> visits the properties. The
  assignment \<open>obj[k] = v\<close> is \<^const>\<open>AList.update\<close> (in place when \<open>k\<close> is there,
  appended otherwise) and the read \<open>obj[k]\<close> is \<^const>\<open>map_of\<close>.
\<close>

type_synonym changeLog = "(string \<times> logEntry) list"

record syncData =
  insertedKeys :: "(string \<times> insertedEntry) list"
  deletedKeys :: "(string \<times> stamped) list"

subsection \<open>Outgoing payload: \<open>encryptSyncMessage\<close> (pgpModel.js)\<close>

text \<open>
  \<open>convertChangeLog(key, changeLog, syncData)\<close>: a key without a log entry is skipped,
  an INSERT entry exports the armored key with the entry's time, a DELETE entry and
  every other type (UPDATE is the only other one) are logged to the console and export
  nothing. \<open>armor\<close> is the library's \<open>key.armor()\<close>.
\<close>

definition convertChangeLog :: "(key \<Rightarrow> string) \<Rightarrow> key \<Rightarrow> changeLog \<Rightarrow> syncData \<Rightarrow> syncData" where
  "convertChangeLog armor k changeLog syncData =
     (let fpr = getFingerprint k in
      case map_of changeLog fpr of
        None \<Rightarrow> syncData
      | Some entry \<Rightarrow>
          if logtype entry = INSERT
          then syncData\<lparr>insertedKeys :=
                 AList.update fpr \<lparr>time = time entry, armored = armor k\<rparr> (insertedKeys syncData)\<rparr>
          else syncData)"

text \<open>The body of the loop \<open>for (const fingerprint in changeLog)\<close>.\<close>

definition addDeleted :: "changeLog \<Rightarrow> syncData \<Rightarrow> string \<Rightarrow> syncData" where
  "addDeleted changeLog syncData fpr =
     (case map_of changeLog fpr of
        None \<Rightarrow> syncData
      | Some entry \<Rightarrow>
          if logtype entry = DELETE
          then syncData\<lparr>deletedKeys := AList.update fpr \<lparr>time = time entry\<rparr> (deletedKeys syncData)\<rparr>
          else syncData)"

text \<open>
  The payload \<open>encryptSyncMessage\<close> builds before it serialises it: the public keys, then
  the private keys in their public form, then the DELETE entries of the log.
\<close>

definition buildSyncData :: "(key \<Rightarrow> string) \<Rightarrow> keyStore \<Rightarrow> changeLog \<Rightarrow> syncData" where
  "buildSyncData armor keyStore changeLog =
     (let s0 = \<lparr>insertedKeys = [], deletedKeys = []\<rparr>;
          s1 = foldl (\<lambda>s pubKey. convertChangeLog armor pubKey changeLog s) s0 (publicKeys keyStore);
          s2 = foldl (\<lambda>s privKey. convertChangeLog armor (toPublic privKey) changeLog s) s1
                 (privateKeys keyStore)
      in foldl (addDeleted changeLog) s2 (map fst changeLog))"

text \<open>
  \<open>encryptSyncMessage(key, changeLog, keyringId)\<close>: the payload, serialised by
  \<open>JSON.stringify\<close> and encrypted and signed with the one key by the library
  (\<open>openpgp.encrypt({data, publicKeys: key, privateKeys: key})\<close>); both are parameters.
\<close>

definition encryptSyncMessage ::
  "(string \<Rightarrow> key \<Rightarrow> 'm) \<Rightarrow> (syncData \<Rightarrow> string) \<Rightarrow> (key \<Rightarrow> string) \<Rightarrow>
     key \<Rightarrow> changeLog \<Rightarrow> keyStore \<Rightarrow> 'm" where
  "encryptSyncMessage encrypt stringify armor k changeLog keyStore =
     encrypt (stringify (buildSyncData armor keyStore changeLog)) k"

subsection \<open>Inbound payload: \<open>decryptSyncMessage\<close> (pgpModel.js)\<close>

text \<open>What the code throws or a promise is rejected with.\<close>

datatype exn =
  Error string      \<comment> \<open>\<open>new Error(message)\<close>\<close>
| TypeError         \<comment> \<open>a property read on \<open>null\<close> or \<open>undefined\<close>\<close>
| SyntaxError       \<comment> \<open>\<open>JSON.parse\<close> on a malformed text\<close>
| Rejected string   \<comment> \<open>a rejection by the OpenPGP library\<close>

text \<open>
  A verified signature as the library reports it: \<open>valid\<close> is \<open>true\<close>, \<open>false\<close> or
  \<open>null\<close> (no key to verify it with).
\<close>

record signature =
  valid :: "bool option"
  sigKeyid :: string

record decrypted =
  data :: string
  signatures :: "signature list"

datatype keyType = Public | Private

text \<open>An entry \<open>{type, armored}\<close> of a list of keys to import.\<close>

record armoredKey =
  keytype :: keyType
  armoredText :: string

text \<open>The two loops over the parsed payload; \<open>acc\<close> is \<open>(changeLog, publicKeys)\<close>.\<close>

definition addInserted ::
  "syncData \<Rightarrow> changeLog \<times> armoredKey list \<Rightarrow> string \<Rightarrow> changeLog \<times> armoredKey list" where
  "addInserted syncData acc fpr =
     (case map_of (insertedKeys syncData) fpr of
        None \<Rightarrow> acc
      | Some entry \<Rightarrow>
          (AList.update fpr \<lparr>time = time entry, logtype = INSERT\<rparr> (fst acc),
           snd acc @ [\<lparr>keytype = Public, armoredText = armored entry\<rparr>]))"

definition addDeletion ::
  "syncData \<Rightarrow> changeLog \<times> armoredKey list \<Rightarrow> string \<Rightarrow> changeLog \<times> armoredKey list" where
  "addDeletion syncData acc fpr =
     (case map_of (deletedKeys syncData) fpr of
        None \<Rightarrow> acc
      | Some entry \<Rightarrow> (AList.update fpr \<lparr>time = time entry, logtype = DELETE\<rparr> (fst acc), snd acc))"

definition mergeSyncData :: "syncData \<Rightarrow> changeLog \<times> armoredKey list" where
  "mergeSyncData syncData =
     foldl (addDeletion syncData)
       (foldl (addInserted syncData) ([], []) (map fst (insertedKeys syncData)))
       (map fst (deletedKeys syncData))"

text \<open>
  \<open>decryptSyncMessage(key, message)\<close>. Parameters: \<open>decrypt\<close> is
  \<open>openpgp.decrypt({message, privateKey: key, publicKeys: key})\<close>, \<open>parse\<close> is
  \<open>JSON.parse\<close> into a payload (\<open>None\<close> when it throws), \<open>getSigningKeyPacket\<close> is the
  library's method of that name (\<open>null\<close> when the key has no signing packet). Only the
  first signature is looked at.
\<close>

definition decryptSyncMessage ::
  "('m \<Rightarrow> key \<Rightarrow> exn + decrypted) \<Rightarrow> (string \<Rightarrow> syncData option) \<Rightarrow> (key \<Rightarrow> packet option) \<Rightarrow>
     key \<Rightarrow> 'm \<Rightarrow> exn + changeLog \<times> armoredKey list" where
  "decryptSyncMessage decrypt parse getSigningKeyPacket k m =
     (case decrypt m k of
        Inl e \<Rightarrow> Inl e
      | Inr msg \<Rightarrow>
          (case signatures msg of
             [] \<Rightarrow> Inl (Error ''Signature of synced keyring is invalid'')
           | sig # _ \<Rightarrow>
               if valid sig \<noteq> Some True then Inl (Error ''Signature of synced keyring is invalid'')
               else
                 (case getSigningKeyPacket k of
                    None \<Rightarrow> Inl TypeError
                  | Some p \<Rightarrow>
                      if sigKeyid sig \<noteq> keyid p
                      then Inl (Error ''Signature of synced keyring is invalid'')
                      else
                        (case parse (data msg) of
                           None \<Rightarrow> Inl SyntaxError
                         | Some syncData \<Rightarrow> Inr (mergeSyncData syncData)))))"

section \<open>Lookup in the key store\<close>

text \<open>
  Modelled from the spec: the key store's base class and the key arrays it holds are not
  in src. The spec gives the store "lookup, insertion, and removal keyed by
  fingerprint/key-id": an identifier of 16 hexadecimal digits is a key id and is compared
  with the packet's key id, any other identifier is compared with its fingerprint.
\<close>

definition keyIdCheck :: "string \<Rightarrow> packet \<Rightarrow> bool" where
  "keyIdCheck ident p = (if length ident = 16 then ident = keyid p else ident = fingerprint p)"

text \<open>
  Modelled from the spec: a key matches an identifier by its primary packet, and with
  \<open>deep\<close> ("optionally matching subkey ids") by its sub key packets as well.
\<close>

definition matchesKey :: "string \<Rightarrow> bool \<Rightarrow> key \<Rightarrow> bool" where
  "matchesKey ident deep k =
     (keyIdCheck ident (primaryKey k) \<or> (deep \<and> list_ex (keyIdCheck ident) (subKeys k)))"

text \<open>
  Modelled from the spec: the lookup in one collection, \<open>keys.getForId(id, deep)\<close>, which
  is not in src: the first key that matches, or \<open>null\<close>.
\<close>

definition getForId :: "key list \<Rightarrow> string \<Rightarrow> bool \<Rightarrow> key option" where
  "getForId ks ident deep = find (matchesKey ident deep) ks"

text \<open>
  Modelled from the spec: \<open>getKeysForId(id, allowSubkeys)\<close> "returns all keys matching a
  key-id, optionally matching subkey ids", public collection first; \<open>null\<close> when there
  is none (the callers test the result for truth).
\<close>

definition getKeysForId :: "keyStore \<Rightarrow> string \<Rightarrow> bool \<Rightarrow> key list option" where
  "getKeysForId store ident deep =
     (let found = filter (matchesKey ident deep) (publicKeys store @ privateKeys store)
      in if found = [] then None else Some found)"

text \<open>
  Modelled from the spec: the removal from one collection, \<open>keys.removeForId(id)\<close>, which
  is not in src: the first key that matches is taken out.
\<close>

fun removeForId :: "key list \<Rightarrow> string \<Rightarrow> key list" where
  "removeForId [] ident = []"
| "removeForId (k # ks) ident = (if matchesKey ident False k then ks else k # removeForId ks ident)"

text \<open>
  \<open>key.update(other)\<close> changes the key object in place, and the object is the one the
  store holds: \<open>getKeysForId(id)[0]\<close>, the first match of the public collection, or of
  the private collection when the public one has none. \<open>replaceKey\<close> puts the updated
  object at that place.
\<close>

fun replaceFirst :: "(key \<Rightarrow> bool) \<Rightarrow> key \<Rightarrow> key list \<Rightarrow> key list" where
  "replaceFirst P k' [] = []"
| "replaceFirst P k' (k # ks) = (if P k then k' # ks else k # replaceFirst P k' ks)"

definition replaceKey :: "keyStore \<Rightarrow> string \<Rightarrow> key \<Rightarrow> keyStore" where
  "replaceKey store ident k' =
     (if list_ex (matchesKey ident False) (publicKeys store)
      then store\<lparr>publicKeys := replaceFirst (matchesKey ident False) k' (publicKeys store)\<rparr>
      else store\<lparr>privateKeys := replaceFirst (matchesKey ident False) k' (privateKeys store)\<rparr>)"

subsection \<open>\<open>checkKeyId\<close> (key.js)\<close>

primrec firstError :: "('a \<Rightarrow> string option) \<Rightarrow> 'a list \<Rightarrow> string option" where
  "firstError f [] = None"
| "firstError f (x # xs) = (case f x of Some e \<Rightarrow> Some e | None \<Rightarrow> firstError f xs)"

definition checkSubKeyId :: "keyStore \<Rightarrow> string \<Rightarrow> packet \<Rightarrow> string option" where
  "checkSubKeyId store defaultKeyId subKey =
     (let subKeyId = keyid subKey in
      case getKeysForId store subKeyId True of
        None \<Rightarrow> None
      | Some keys \<Rightarrow>
          firstError (\<lambda>k.
            if keyid (primaryKey k) = subKeyId
            then Some ''Sub keyId equals existing primary keyId.''
            else if keyid (primaryKey k) \<noteq> defaultKeyId
            then Some ''Sub keyId equals existing sub keyId in key with different primary keyId.''
            else None) keys)"

text \<open>\<open>checkKeyId(sourceKey, keyring)\<close>: the message of the error it throws, if it does.\<close>

definition checkKeyId :: "key \<Rightarrow> keyStore \<Rightarrow> string option" where
  "checkKeyId sourceKey store =
     (let defaultKeyId = keyid (primaryKey sourceKey) in
      case (case getKeysForId store defaultKeyId True of
              None \<Rightarrow> None
            | Some keys \<Rightarrow>
                firstError (\<lambda>k.
                  if keyid (primaryKey k) \<noteq> defaultKeyId
                  then Some ''Primary keyId equals existing sub keyId.''
                  else None) keys) of
        Some e \<Rightarrow> Some e
      | None \<Rightarrow> firstError (checkSubKeyId store defaultKeyId) (subKeys sourceKey))"

section \<open>The local keyring (KeyringLocal.js)\<close>

text \<open>
  The state of one keyring: the key store in memory, the keyring attribute
  \<open>primary_key\<close> (the empty string when it is not set), the pending change log of
  \<open>this.sync\<close>, and the two storage records \<open>mvelo.keyring.<id>.publicKeys\<close> and
  \<open>mvelo.keyring.<id>.privateKeys\<close> that \<open>keystore.store()\<close> writes.
\<close>

record keyring =
  keystore :: keyStore
  primary_key :: string
  sync :: changeLog
  storedPublicKeys :: "string list"
  storedPrivateKeys :: "string list"

text \<open>
  Modelled from the spec: the base class of the keyring is not in src. The primary key
  fingerprint is "persisted as a keyring attribute outside the KeyStore"; the keyring has
  a primary key when the attribute is set.
\<close>

definition getPrimaryKeyFpr :: "keyring \<Rightarrow> string" where
  "getPrimaryKeyFpr kr = primary_key kr"

definition setPrimaryKey :: "keyring \<Rightarrow> string \<Rightarrow> keyring" where
  "setPrimaryKey kr fpr = kr\<lparr>primary_key := fpr\<rparr>"

definition hasPrimaryKey :: "keyring \<Rightarrow> bool" where
  "hasPrimaryKey kr = (primary_key kr \<noteq> [])"

text \<open>
  Modelled from the spec: the module keyringSync is not in src. \<open>add(fingerprint, type)\<close>
  "upserts the entry for fingerprint, timestamped now, overwriting any prior pending
  entry"; \<open>commit()\<close> "clears the pending log". \<open>now\<close> is the clock's value.
\<close>

definition sync_add :: "nat \<Rightarrow> keyring \<Rightarrow> string \<Rightarrow> changeType \<Rightarrow> keyring" where
  "sync_add now kr fpr t = kr\<lparr>sync := AList.update fpr \<lparr>time = now, logtype = t\<rparr> (sync kr)\<rparr>"

definition sync_commit :: "keyring \<Rightarrow> keyring" where
  "sync_commit kr = kr\<lparr>sync := []\<rparr>"

text \<open>\<open>keystore.store()\<close> (KeyStoreLocal.js): both collections, armored, into storage.\<close>

definition store :: "(key \<Rightarrow> string) \<Rightarrow> keyring \<Rightarrow> keyring" where
  "store armor kr =
     kr\<lparr>storedPublicKeys := map armor (publicKeys (keystore kr)),
        storedPrivateKeys := map armor (privateKeys (keystore kr))\<rparr>"

subsection \<open>\<open>getPrimaryKey\<close>\<close>

text \<open>
  The scan of \<open>getPrimaryKey\<close> over the private keys: a key replaces the candidate when
  there is none yet or the candidate was created earlier, and the key passes
  \<open>validatePrimaryKey\<close> (a method of the base class, a parameter here).
\<close>

definition newerValid :: "(key \<Rightarrow> bool) \<Rightarrow> key option \<Rightarrow> key \<Rightarrow> key option" where
  "newerValid validatePrimaryKey primaryKey' k =
     (if (case primaryKey' of None \<Rightarrow> True
          | Some p \<Rightarrow> created (primaryKey p) < created (primaryKey k)) \<and> validatePrimaryKey k
      then Some k else primaryKey')"

definition getPrimaryKey :: "(key \<Rightarrow> bool) \<Rightarrow> keyring \<Rightarrow> key option \<times> keyring" where
  "getPrimaryKey validatePrimaryKey kr =
     (let primaryKeyFpr = getPrimaryKeyFpr kr;
          stored =
            (if primaryKeyFpr \<noteq> []
             then (case getForId (privateKeys (keystore kr)) primaryKeyFpr False of
                     None \<Rightarrow> (None, setPrimaryKey kr [])
                   | Some k \<Rightarrow>
                       if validatePrimaryKey k then (Some k, kr) else (None, setPrimaryKey kr []))
             else (None, kr))
      in case fst stored of
           Some k \<Rightarrow> (Some k, snd stored)
         | None \<Rightarrow>
             (case foldl (newerValid validatePrimaryKey) None (privateKeys (keystore (snd stored))) of
                None \<Rightarrow> (None, snd stored)
              | Some k \<Rightarrow> (Some k, setPrimaryKey (snd stored) (getFingerprint k))))"

subsection \<open>\<open>importKeys\<close>, \<open>importPublicKey\<close>, \<open>importPrivateKey\<close>\<close>

datatype msgType = success | error

text \<open>
  A result message \<open>{type, message}\<close>. The message is kept as the key of the localized
  text; its arguments (key id, user id, error text) are for display only.
\<close>

record resultMsg =
  msgtype :: msgType
  message :: string

text \<open>
  The loop of \<open>importPublicKey\<close> over the parsed keys. \<open>update\<close> is the library's
  \<open>key.update(other)\<close>: the updated key, or what it throws. An exception leaves the loop;
  what was changed before stays changed, and the messages of this call are lost with it.
\<close>

fun importPublicKeyLoop ::
  "(key \<Rightarrow> key \<Rightarrow> exn + key) \<Rightarrow> nat \<Rightarrow> key list \<Rightarrow> keyring \<Rightarrow> resultMsg list \<Rightarrow>
     keyring \<times> (exn + resultMsg list)" where
  "importPublicKeyLoop update now [] kr result = (kr, Inr result)"
| "importPublicKeyLoop update now (pubKey # rest) kr result =
     (case checkKeyId pubKey (keystore kr) of
        Some e \<Rightarrow> (kr, Inl (Error e))
      | None \<Rightarrow>
          (let fpr = getFingerprint pubKey in
           case getKeysForId (keystore kr) fpr False of
             Some [] \<Rightarrow> (kr, Inl TypeError)
           | Some (k # _) \<Rightarrow>
               (case update k pubKey of
                  Inl e \<Rightarrow> (kr, Inl e)
                | Inr k' \<Rightarrow>
                    importPublicKeyLoop update now rest
                      (sync_add now (kr\<lparr>keystore := replaceKey (keystore kr) fpr k'\<rparr>) fpr UPDATE)
                      (result @ [\<lparr>msgtype = success, message = ''key_import_public_update''\<rparr>]))
           | None \<Rightarrow>
               importPublicKeyLoop update now rest
                 (sync_add now
                    (kr\<lparr>keystore := (keystore kr)\<lparr>publicKeys := publicKeys (keystore kr) @ [pubKey]\<rparr>\<rparr>)
                    fpr INSERT)
                 (result @ [\<lparr>msgtype = success, message = ''key_import_public_success''\<rparr>])))"

text \<open>
  \<open>importPublicKey(armored)\<close>. \<open>readArmored\<close> is the library's
  \<open>openpgp.key.readArmored\<close>: the keys it could read and the errors (\<open>imported.keys\<close>,
  \<open>imported.err\<close>).
\<close>

definition importPublicKey ::
  "(string \<Rightarrow> key list \<times> string list) \<Rightarrow> (key \<Rightarrow> key \<Rightarrow> exn + key) \<Rightarrow> nat \<Rightarrow>
     keyring \<Rightarrow> string \<Rightarrow> keyring \<times> (exn + resultMsg list)" where
  "importPublicKey readArmored update now kr armoredKeyText =
     (let imported = readArmored armoredKeyText
      in importPublicKeyLoop update now (fst imported) kr
           (map (\<lambda>err. \<lparr>msgtype = error, message = ''key_import_public_read''\<rparr>) (snd imported)))"

fun importPrivateKeyLoop ::
  "(key \<Rightarrow> key \<Rightarrow> exn + key) \<Rightarrow> nat \<Rightarrow> key list \<Rightarrow> keyring \<Rightarrow> resultMsg list \<Rightarrow>
     keyring \<times> (exn + resultMsg list)" where
  "importPrivateKeyLoop update now [] kr result = (kr, Inr result)"
| "importPrivateKeyLoop update now (privKey # rest) kr result =
     (case checkKeyId privKey (keystore kr) of
        Some e \<Rightarrow> (kr, Inl (Error e))
      | None \<Rightarrow>
          (let fpr = getFingerprint privKey in
           case getKeysForId (keystore kr) fpr False of
             Some [] \<Rightarrow> (kr, Inl TypeError)
           | Some (k # _) \<Rightarrow>
               if isPublic k
               then (case update privKey k of
                       Inl e \<Rightarrow> (kr, Inl e)
                     | Inr privKey' \<Rightarrow>
                         importPrivateKeyLoop update now rest
                           (sync_add now
                              (kr\<lparr>keystore :=
                                 \<lparr>publicKeys = removeForId (publicKeys (keystore kr)) fpr,
                                  privateKeys = privateKeys (keystore kr) @ [privKey']\<rparr>\<rparr>)
                              fpr UPDATE)
                           (result @ [\<lparr>msgtype = success, message = ''key_import_private_exists''\<rparr>]))
               else (case update k privKey of
                       Inl e \<Rightarrow> (kr, Inl e)
                     | Inr k' \<Rightarrow>
                         importPrivateKeyLoop update now rest
                           (sync_add now (kr\<lparr>keystore := replaceKey (keystore kr) fpr k'\<rparr>) fpr UPDATE)
                           (result @ [\<lparr>msgtype = success, message = ''key_import_private_update''\<rparr>]))
           | None \<Rightarrow>
               importPrivateKeyLoop update now rest
                 (sync_add now
                    (kr\<lparr>keystore := (keystore kr)\<lparr>privateKeys := privateKeys (keystore kr) @ [privKey]\<rparr>\<rparr>)
                    fpr INSERT)
                 (result @ [\<lparr>msgtype = success, message = ''key_import_private_success''\<rparr>])))"

definition importPrivateKey ::
  "(string \<Rightarrow> key list \<times> string list) \<Rightarrow> (key \<Rightarrow> key \<Rightarrow> exn + key) \<Rightarrow> nat \<Rightarrow>
     keyring \<Rightarrow> string \<Rightarrow> keyring \<times> (exn + resultMsg list)" where
  "importPrivateKey readArmored update now kr armoredKeyText =
     (let imported = readArmored armoredKeyText
      in importPrivateKeyLoop update now (fst imported) kr
           (map (\<lambda>err. \<lparr>msgtype = error, message = ''key_import_private_read''\<rparr>) (snd imported)))"

text \<open>
  The body of \<open>armoredKeys.forEach\<close> in \<open>importKeys\<close>, with its \<open>try\<close>/\<open>catch\<close>: an
  exception becomes one error message and the loop goes on with the next key.
\<close>

definition importOne ::
  "(string \<Rightarrow> key list \<times> string list) \<Rightarrow> (key \<Rightarrow> key \<Rightarrow> exn + key) \<Rightarrow> nat \<Rightarrow>
     keyring \<times> resultMsg list \<Rightarrow> armoredKey \<Rightarrow> keyring \<times> resultMsg list" where
  "importOne readArmored update now acc k =
     (case (case keytype k of
              Public \<Rightarrow> importPublicKey readArmored update now (fst acc) (armoredText k)
            | Private \<Rightarrow> importPrivateKey readArmored update now (fst acc) (armoredText k)) of
        (kr', Inr msgs) \<Rightarrow> (kr', snd acc @ msgs)
      | (kr', Inl e) \<Rightarrow> (kr', snd acc @ [\<lparr>msgtype = error, message = ''key_import_unable''\<rparr>]))"

text \<open>
  \<open>armoredKeys.sort((a, b) => b.type.localeCompare(a.type))\<close>: the public keys first, the
  order within each type kept (the sort is stable).
\<close>

definition sortPublicFirst :: "armoredKey list \<Rightarrow> armoredKey list" where
  "sortPublicFirst armoredKeys =
     filter (\<lambda>k. keytype k = Public) armoredKeys @ filter (\<lambda>k. keytype k = Private) armoredKeys"

definition importKeys ::
  "(key \<Rightarrow> string) \<Rightarrow> (string \<Rightarrow> key list \<times> string list) \<Rightarrow> (key \<Rightarrow> key \<Rightarrow> exn + key) \<Rightarrow> nat \<Rightarrow>
     keyring \<Rightarrow> armoredKey list \<Rightarrow> resultMsg list \<times> keyring" where
  "importKeys armor readArmored update now kr armoredKeys =
     (let imported = foldl (importOne readArmored update now) (kr, []) (sortPublicFirst armoredKeys);
          result = snd imported
      in if \<not> list_ex (\<lambda>m. msgtype m = success) result then (result, fst imported)
         else
           (let kr1 = sync_commit (store armor (fst imported));
                kr2 = (if \<not> hasPrimaryKey kr1 \<and> length (privateKeys (keystore kr1)) > 0
                       then setPrimaryKey kr1 (getFingerprint (hd (privateKeys (keystore kr1))))
                       else kr1)
            in (result, kr2)))"

text \<open>The fingerprints of the keys a store holds, in either collection.\<close>

definition fingerprintsOf :: "keyStore \<Rightarrow> string set" where
  "fingerprintsOf st = getFingerprint ` set (publicKeys st @ privateKeys st)"

section \<open>Backup and restore of a private key (pgpModel.js)\<close>

text \<open>
  The packets of a message, as far as the code tells them apart: by their tag, and for
  the symmetric-key encrypted session key packet (tag 3) by \<open>sessionKeyAlgorithm\<close> and
  \<open>sessionKeyEncryptionAlgorithm\<close> (\<open>null\<close> when the packet carries no encrypted session
  key). The contents of the other packets are opaque to the code. The encrypted data
  packet (tag 18) is written symbolically, as the passphrase it is sealed with and the
  packets inside: only the library's \<open>decrypt\<close>, a parameter below, reads them.
\<close>

datatype pgpPacket =
  SymEncryptedSessionKey string "string option"
| SymEncryptedIntegrityProtected string "pgpPacket list"
| Literal string
| OtherPacket nat string

fun tag :: "pgpPacket \<Rightarrow> nat" where
  "tag (SymEncryptedSessionKey alg encAlg) = 3"
| "tag (SymEncryptedIntegrityProtected c ps) = 18"
| "tag (Literal txt) = 11"
| "tag (OtherPacket t c) = t"

text \<open>The condition \<open>restorePrivateKeyBackup\<close> tests before it decrypts.\<close>

fun backupStructure :: "pgpPacket list \<Rightarrow> bool" where
  "backupStructure [SymEncryptedSessionKey alg encAlg, p1] =
     (alg = ''aes256'' \<and> (encAlg = None \<or> encAlg = Some ''aes256'') \<and> tag p1 = 18)"
| "backupStructure packets = False"

text \<open>
  The structure in the words of the spec: exactly two packets, a symmetric-key encrypted
  session key packet using a fixed strong cipher and no additional key-derivation
  wrapping (the session key is not itself encrypted), followed by one integrity-protected
  encrypted-data packet.
\<close>

fun specBackupStructure :: "pgpPacket list \<Rightarrow> bool" where
  "specBackupStructure [SymEncryptedSessionKey alg encAlg, p1] =
     (alg = ''aes256'' \<and> encAlg = None \<and> tag p1 = 18)"
| "specBackupStructure packets = False"

subsection \<open>\<open>parseMetaInfo\<close>\<close>

text \<open>
  Strings are lists of code units below 256; of the characters the class \<open>\s\<close> of a
  regular expression matches, these are tab, line feed, vertical tab, form feed, carriage
  return, space and no-break space.
\<close>

definition isSpace :: "char \<Rightarrow> bool" where
  "isSpace c = (of_char c \<in> {9, 10, 11, 12, 13, 32, 160 :: nat})"

text \<open>\<open>txt.split(sep)\<close> for a separator of one character.\<close>

fun splitChar :: "char \<Rightarrow> string \<Rightarrow> string list" where
  "splitChar sep [] = [[]]"
| "splitChar sep (c # cs) =
     (if c = sep then [] # splitChar sep cs
      else (case splitChar sep cs of [] \<Rightarrow> [[c]] | r # rs \<Rightarrow> (c # r) # rs))"

text \<open>\<open>row.split(/:\s/)\<close>: cut at every colon that a white space character follows.\<close>

fun splitColonSpace :: "string \<Rightarrow> string list" where
  "splitColonSpace [] = [[]]"
| "splitColonSpace [c] = [[c]]"
| "splitColonSpace (c # d # cs) =
     (if c = CHR '':'' \<and> isSpace d then [] # splitColonSpace cs
      else (case splitColonSpace (d # cs) of [] \<Rightarrow> [[c]] | r # rs \<Rightarrow> (c # r) # rs))"

text \<open>
  \<open>parseMetaInfo(txt)\<close>: carriage returns are dropped, and every line that is not empty
  sets \<open>result[keyValue[0]] = keyValue[1]\<close>, which is \<open>undefined\<close> (here \<open>None\<close>) for a line
  without separator.
\<close>

definition parseMetaInfo :: "string \<Rightarrow> (string \<times> string option) list" where
  "parseMetaInfo txt =
     foldl (\<lambda>result row.
         if row \<noteq> []
         then (case splitColonSpace row of
                 [] \<Rightarrow> result
               | [k] \<Rightarrow> AList.update k None result
               | k # v # _ \<Rightarrow> AList.update k (Some v) result)
         else result)
       [] (splitChar (CHR 0x0A) (filter (\<lambda>c. c \<noteq> CHR 0x0D) txt))"

text \<open>The property read \<open>.Pwd\<close> of the result.\<close>

definition getPwd :: "(string \<times> string option) list \<Rightarrow> string option" where
  "getPwd result = (case map_of result ''Pwd'' of None \<Rightarrow> None | Some v \<Rightarrow> v)"

subsection \<open>\<open>createPrivateKeyBackup\<close> and \<open>restorePrivateKeyBackup\<close>\<close>

record 'a backup =
  backupCode :: string
  armoredMessage :: 'a

text \<open>
  The literal data packet of the library keeps its text with the line ends of the
  network: \<open>literal.setText(text)\<close> writes every end of line (CR LF, a lone CR, a lone
  LF) as CR LF, and \<open>getText()\<close> gives every CR LF back as LF.
\<close>

fun toNetworkEOL :: "string \<Rightarrow> string" where
  "toNetworkEOL [] = []"
| "toNetworkEOL [c] = (if c = CHR 0x0D \<or> c = CHR 0x0A then [CHR 0x0D, CHR 0x0A] else [c])"
| "toNetworkEOL (c # d # cs) =
     (if c = CHR 0x0D \<and> d = CHR 0x0A then CHR 0x0D # CHR 0x0A # toNetworkEOL cs
      else if c = CHR 0x0D \<or> c = CHR 0x0A then CHR 0x0D # CHR 0x0A # toNetworkEOL (d # cs)
      else c # toNetworkEOL (d # cs))"

fun fromNetworkEOL :: "string \<Rightarrow> string" where
  "fromNetworkEOL [] = []"
| "fromNetworkEOL [c] = [c]"
| "fromNetworkEOL (c # d # cs) =
     (if c = CHR 0x0D \<and> d = CHR 0x0A then CHR 0x0A # fromNetworkEOL cs
      else c # fromNetworkEOL (d # cs))"

text \<open>\<open>literal.setText(text)\<close> on a new literal data packet.\<close>

definition setText :: "string \<Rightarrow> pgpPacket" where
  "setText txt = Literal (toNetworkEOL txt)"

text \<open>
  \<open>createPrivateKeyBackup(primaryKey, keyPwd)\<close>. Parameters: \<open>code\<close> is the value of
  \<open>randomString(26)\<close>, \<open>symEncrypt\<close> the function of that name of the crypto module (not
  in src), \<open>armorMessage\<close> the library's \<open>msg.armor()\<close> into an armored text of type
  \<open>'a\<close>, \<open>toPacketlist\<close> the library's \<open>key.toPacketlist()\<close>.
\<close>

definition createPrivateKeyBackup ::
  "(pgpPacket list \<Rightarrow> string \<Rightarrow> pgpPacket list) \<Rightarrow> (pgpPacket list \<Rightarrow> 'a) \<Rightarrow>
     (key \<Rightarrow> pgpPacket list) \<Rightarrow> string \<Rightarrow> key \<Rightarrow> string \<Rightarrow> 'a backup" where
  "createPrivateKeyBackup symEncrypt armorMessage toPacketlist code primaryKey' keyPwd =
     (let text = ''Version: 1'' @ [CHR 0x0A] @ ''Pwd: '' @ keyPwd @ [CHR 0x0A];
          packetList = setText text # toPacketlist primaryKey'
      in \<lparr>backupCode = code, armoredMessage = armorMessage (symEncrypt packetList code)\<rparr>)"

text \<open>\<open>message.getText()\<close>: the text of the first literal packet, or \<open>null\<close>.\<close>

fun getText :: "pgpPacket list \<Rightarrow> string option" where
  "getText [] = None"
| "getText (Literal txt # ps) = Some (fromNetworkEOL txt)"
| "getText (p # ps) = getText ps"

text \<open>What \<open>restorePrivateKeyBackup\<close> throws, before \<open>mvelo.util.mapError\<close> maps it.\<close>

datatype thrown =
  Thrown string "string option"   \<comment> \<open>an object \<open>{message, code}\<close>, the code may be missing\<close>
| Raised exn

record restored =
  key :: key
  password :: "string option"

text \<open>
  \<open>restorePrivateKeyBackup(armoredBlock, code)\<close>. Parameters: \<open>readArmored\<close> is the
  library's \<open>openpgp.message.readArmored\<close>, \<open>decrypt\<close> is \<open>message.decrypt(null, null,
  code)\<close> (\<open>None\<close> when it is rejected), \<open>newKey\<close> is \<open>new openpgp.key.Key(packets)\<close>,
  \<open>mapError\<close> is \<open>mvelo.util.mapError\<close> (not in src).
\<close>

definition restorePrivateKeyBackup ::
  "('a \<Rightarrow> exn + pgpPacket list) \<Rightarrow> (pgpPacket list \<Rightarrow> string \<Rightarrow> pgpPacket list option) \<Rightarrow>
     (pgpPacket list \<Rightarrow> exn + key) \<Rightarrow> (thrown \<Rightarrow> 'e) \<Rightarrow> 'a \<Rightarrow> string \<Rightarrow> 'e + restored" where
  "restorePrivateKeyBackup readArmored decrypt newKey mapError armoredBlock code =
     (case readArmored armoredBlock of
        Inl e \<Rightarrow> Inl (mapError (Raised e))
      | Inr packets \<Rightarrow>
          if \<not> backupStructure packets
          then Inl (mapError (Thrown ''Illegal private key backup structure.'' None))
          else
            (case decrypt packets code of
               None \<Rightarrow>
                 Inl (mapError (Thrown ''Could not decrypt message with this restore code''
                                  (Some ''WRONG_RESTORE_CODE'')))
             | Some msg \<Rightarrow>
                 (case getText msg of
                    None \<Rightarrow> Inl (mapError (Raised TypeError))
                  | Some txt \<Rightarrow>
                      (let pwd = getPwd (parseMetaInfo txt);
                           keyPackets = drop 1 msg
                       in case newKey keyPackets of
                            Inl e \<Rightarrow> Inl (mapError (Raised e))
                          | Inr privKey \<Rightarrow> Inr \<lparr>key = privKey, password = pwd\<rparr>))))"

section \<open>Applying an inbound sync payload\<close>









subsection \<open>The steps of an import, on the key store\<close>






section \<open>Example data\<close>

text \<open>
  Keys, keyrings, payloads and a library to run the model on: \<open>keyA\<close> and \<open>keyB\<close> are
  public keys, \<open>keyP\<close> and \<open>keyQ\<close> private keys; the library reads the armored texts
  ``armored A'' and so on, and its \<open>update\<close> merges the user ids.
\<close>

definition keyA :: key where
  "keyA = \<lparr>primaryKey = \<lparr>fingerprint = ''aaaa0000aaaa0000aaaa0000aaaa0000aaaa0001'',
       keyid = ''aaaa0000aaaa0001'', created = 100\<rparr>,
     subKeys = [], users = [''Alice <alice@example.org>''], secretKey = None\<rparr>"

definition keyP :: key where
  "keyP = \<lparr>primaryKey = \<lparr>fingerprint = ''bbbb0000bbbb0000bbbb0000bbbb0000bbbb0002'',
       keyid = ''bbbb0000bbbb0002'', created = 200\<rparr>,
     subKeys = [], users = [''Bob <bob@example.org>''], secretKey = Some ''secret material''\<rparr>"

definition armorEx :: "key \<Rightarrow> string" where
  "armorEx k = (if isPublic k then ''PUBLIC KEY BLOCK '' else ''PRIVATE KEY BLOCK '') @
     getFingerprint k @ concat (users k)"

definition keyB :: key where
  "keyB = \<lparr>primaryKey = \<lparr>fingerprint = ''cccc0000cccc0000cccc0000cccc0000cccc0003'',
       keyid = ''cccc0000cccc0003'', created = 150\<rparr>,
     subKeys = [], users = [''Carol <carol@example.org>''], secretKey = None\<rparr>"

definition keyQ :: key where
  "keyQ = \<lparr>primaryKey = \<lparr>fingerprint = ''dddd0000dddd0000dddd0000dddd0000dddd0004'',
       keyid = ''dddd0000dddd0004'', created = 300\<rparr>,
     subKeys = [], users = [''Dave <dave@example.org>''], secretKey = Some ''secret material''\<rparr>"

text \<open>The public key of \<open>keyQ\<close>, with one more user id.\<close>

definition keyQpub :: key where
  "keyQpub = \<lparr>primaryKey = primaryKey keyQ, subKeys = [],
     users = [''Dave <dave@example.org>'', ''Dave <dave@example.com>''], secretKey = None\<rparr>"

text \<open>
  A public key with a sub key, and a second public key whose primary packet has the key
  id of that sub key.
\<close>

definition keyX :: key where
  "keyX = \<lparr>primaryKey = \<lparr>fingerprint = ''eeee0000eeee0000eeee0000eeee0000eeee0005'',
       keyid = ''eeee0000eeee0005'', created = 400\<rparr>,
     subKeys = [\<lparr>fingerprint = ''ffff0000ffff0000ffff0000ffff0000ffff0006'',
       keyid = ''ffff0000ffff0006'', created = 400\<rparr>],
     users = [''Erin <erin@example.org>''], secretKey = None\<rparr>"

definition keyY :: key where
  "keyY = \<lparr>primaryKey = \<lparr>fingerprint = ''ffff0000ffff0000ffff0000ffff0000ffff0006'',
       keyid = ''ffff0000ffff0006'', created = 400\<rparr>,
     subKeys = [], users = [''Frank <frank@example.org>''], secretKey = None\<rparr>"

text \<open>
  A public key whose sub key packet has the key id of its own primary packet, and a
  second public key, of another fingerprint, whose primary packet has that key id too.
\<close>

definition keyK :: key where
  "keyK = \<lparr>primaryKey = \<lparr>fingerprint = ''1111000011110000111100009999000099990007'',
       keyid = ''9999000099990007'', created = 500\<rparr>,
     subKeys = [\<lparr>fingerprint = ''1111000011110000111100009999000099990007'',
       keyid = ''9999000099990007'', created = 500\<rparr>],
     users = [''Grace <grace@example.org>''], secretKey = None\<rparr>"

definition keyJ :: key where
  "keyJ = \<lparr>primaryKey = \<lparr>fingerprint = ''2222000022220000222200009999000099990007'',
       keyid = ''9999000099990007'', created = 500\<rparr>,
     subKeys = [], users = [''Heidi <heidi@example.org>''], secretKey = None\<rparr>"

definition readArmoredEx :: "string \<Rightarrow> key list \<times> string list" where
  "readArmoredEx txt =
     (if txt = ''armored A'' then ([keyA], [])
      else if txt = ''armored B'' then ([keyB], [])
      else if txt = ''armored P'' then ([keyP], [])
      else if txt = ''armored Q'' then ([keyQ], [])
      else if txt = ''armored Y'' then ([keyY], [])
      else if txt = ''armored K'' then ([keyK], [])
      else if txt = ''armored J'' then ([keyJ], [])
      else ([], [''Unknown ASCII armor type'']))"

definition updateEx :: "key \<Rightarrow> key \<Rightarrow> exn + key" where
  "updateEx k other =
     (if getFingerprint k \<noteq> getFingerprint other
      then Inl (Error ''Key update method: fingerprints of keys not equal'')
      else Inr (k\<lparr>users := users k @ filter (\<lambda>u. u \<notin> set (users k)) (users other)\<rparr>))"

definition validateEx :: "key \<Rightarrow> bool" where
  "validateEx k = (users k \<noteq> [])"

definition emptyKeyring :: keyring where
  "emptyKeyring = \<lparr>keystore = \<lparr>publicKeys = [], privateKeys = []\<rparr>, primary_key = [], sync = [],
     storedPublicKeys = [], storedPrivateKeys = []\<rparr>"

definition keyringP :: keyring where
  "keyringP = emptyKeyring\<lparr>keystore := \<lparr>publicKeys = [keyA], privateKeys = [keyP]\<rparr>\<rparr>"

definition keyringQpub :: keyring where
  "keyringQpub = emptyKeyring\<lparr>keystore := \<lparr>publicKeys = [keyA, keyQpub], privateKeys = [keyP]\<rparr>\<rparr>"

text \<open>
  A keyring that holds the fingerprint of \<open>keyQ\<close> in both collections, and one whose
  public collection holds the private key \<open>keyP\<close> (imported under the type ``public'').
\<close>

definition keyringQboth :: keyring where
  "keyringQboth = emptyKeyring\<lparr>keystore := \<lparr>publicKeys = [keyA, keyQpub], privateKeys = [keyP, keyQ]\<rparr>\<rparr>"

definition keyringPpub :: keyring where
  "keyringPpub = emptyKeyring\<lparr>keystore := \<lparr>publicKeys = [keyA, keyP], privateKeys = []\<rparr>\<rparr>"

definition changeLogQ :: changeLog where
  "changeLogQ = [(getFingerprint keyQ, \<lparr>time = 3, logtype = INSERT\<rparr>)]"

definition changeLogEx :: changeLog where
  "changeLogEx =
     [(getFingerprint keyA, \<lparr>time = 5, logtype = INSERT\<rparr>),
      (getFingerprint keyP, \<lparr>time = 7, logtype = INSERT\<rparr>),
      (getFingerprint keyB, \<lparr>time = 9, logtype = DELETE\<rparr>),
      (getFingerprint keyQ, \<lparr>time = 3, logtype = UPDATE\<rparr>)]"

definition changeLogUpdate :: changeLog where
  "changeLogUpdate = [(getFingerprint keyA, \<lparr>time = 5, logtype = UPDATE\<rparr>)]"

definition keyringPQ :: keyring where
  "keyringPQ = emptyKeyring\<lparr>keystore := \<lparr>publicKeys = [keyA], privateKeys = [keyP, keyQ]\<rparr>\<rparr>"

definition syncDataEx :: syncData where
  "syncDataEx = \<lparr>insertedKeys = [(getFingerprint keyA, \<lparr>time = 5, armored = ''armored A''\<rparr>)],
     deletedKeys = [(getFingerprint keyB, \<lparr>time = 9\<rparr>)]\<rparr>"

definition syncDataOverlap :: syncData where
  "syncDataOverlap = \<lparr>insertedKeys = [(getFingerprint keyA, \<lparr>time = 5, armored = ''armored A''\<rparr>)],
     deletedKeys = [(getFingerprint keyA, \<lparr>time = 9\<rparr>)]\<rparr>"

text \<open>A payload that inserts \<open>keyY\<close> and deletes \<open>keyX\<close>.\<close>

definition syncDataConflict :: syncData where
  "syncDataConflict = \<lparr>insertedKeys = [(getFingerprint keyY, \<lparr>time = 5, armored = ''armored Y''\<rparr>)],
     deletedKeys = [(getFingerprint keyX, \<lparr>time = 9\<rparr>)]\<rparr>"

text \<open>
  A payload that inserts \<open>keyA\<close> and \<open>keyB\<close> and deletes \<open>keyA\<close>, one that only deletes
  \<open>keyQ\<close>, and one with a text that is not a key.
\<close>

definition syncDataReorder :: syncData where
  "syncDataReorder = \<lparr>insertedKeys = [(getFingerprint keyA, \<lparr>time = 5, armored = ''armored A''\<rparr>),
       (getFingerprint keyB, \<lparr>time = 6, armored = ''armored B''\<rparr>)],
     deletedKeys = [(getFingerprint keyA, \<lparr>time = 9\<rparr>)]\<rparr>"

definition syncDataDelete :: syncData where
  "syncDataDelete = \<lparr>insertedKeys = [], deletedKeys = [(getFingerprint keyQ, \<lparr>time = 9\<rparr>)]\<rparr>"

text \<open>A payload that inserts \<open>keyK\<close> and \<open>keyJ\<close> and deletes \<open>keyK\<close>.\<close>

definition syncDataColliding :: syncData where
  "syncDataColliding = \<lparr>insertedKeys = [(getFingerprint keyK, \<lparr>time = 5, armored = ''armored K''\<rparr>),
       (getFingerprint keyJ, \<lparr>time = 6, armored = ''armored J''\<rparr>)],
     deletedKeys = [(getFingerprint keyK, \<lparr>time = 9\<rparr>)]\<rparr>"

definition syncDataUnreadable :: syncData where
  "syncDataUnreadable = \<lparr>insertedKeys = [(getFingerprint keyY, \<lparr>time = 4, armored = ''not a key''\<rparr>),
       (getFingerprint keyA, \<lparr>time = 5, armored = ''armored A''\<rparr>)],
     deletedKeys = [(getFingerprint keyB, \<lparr>time = 9\<rparr>)]\<rparr>"

definition payloadOf :: "string \<Rightarrow> string option" where
  "payloadOf m =
     (if m = ''sync message'' then Some ''payload''
      else if m = ''overlapping sync message'' then Some ''overlapping payload''
      else if m = ''conflicting sync message'' then Some ''conflicting payload''
      else if m = ''reordering sync message'' then Some ''reordering payload''
      else if m = ''deleting sync message'' then Some ''deleting payload''
      else if m = ''unreadable sync message'' then Some ''unreadable payload''
      else if m = ''colliding sync message'' then Some ''colliding payload''
      else None)"

definition decryptEx :: "string \<Rightarrow> key \<Rightarrow> exn + decrypted" where
  "decryptEx m k =
     (if m = ''forged sync message''
      then Inr \<lparr>data = ''payload'', signatures = [\<lparr>valid = Some False, sigKeyid = keyid (primaryKey k)\<rparr>]\<rparr>
      else (case payloadOf m of
              Some txt \<Rightarrow>
                Inr \<lparr>data = txt, signatures = [\<lparr>valid = Some True, sigKeyid = keyid (primaryKey k)\<rparr>]\<rparr>
            | None \<Rightarrow> Inl (Rejected ''Error decrypting message'')))"

definition parseEx :: "string \<Rightarrow> syncData option" where
  "parseEx txt =
     (if txt = ''payload'' then Some syncDataEx
      else if txt = ''overlapping payload'' then Some syncDataOverlap
      else if txt = ''conflicting payload'' then Some syncDataConflict
      else if txt = ''reordering payload'' then Some syncDataReorder
      else if txt = ''deleting payload'' then Some syncDataDelete
      else if txt = ''unreadable payload'' then Some syncDataUnreadable
      else if txt = ''colliding payload'' then Some syncDataColliding
      else None)"

definition signingEx :: "key \<Rightarrow> packet option" where
  "signingEx k = Some (primaryKey k)"

definition batchEx :: "armoredKey list" where
  "batchEx = [\<lparr>keytype = Public, armoredText = ''armored A''\<rparr>,
     \<lparr>keytype = Public, armoredText = ''not a key''\<rparr>,
     \<lparr>keytype = Public, armoredText = ''armored B''\<rparr>]"

definition importQ :: "armoredKey list" where
  "importQ = [\<lparr>keytype = Private, armoredText = ''armored Q''\<rparr>]"

text \<open>An ideal library for the backup: sealing is symbolic.\<close>

definition symEncryptEx :: "pgpPacket list \<Rightarrow> string \<Rightarrow> pgpPacket list" where
  "symEncryptEx packets passphrase =
     [SymEncryptedSessionKey ''aes256'' None, SymEncryptedIntegrityProtected passphrase packets]"

fun decryptBackupEx :: "pgpPacket list \<Rightarrow> string \<Rightarrow> pgpPacket list option" where
  "decryptBackupEx [SymEncryptedSessionKey alg encAlg, SymEncryptedIntegrityProtected passphrase packets] code =
     (if passphrase = code then Some packets else None)"
| "decryptBackupEx packets code = None"

definition toPacketlistEx :: "key \<Rightarrow> pgpPacket list" where
  "toPacketlistEx k = [OtherPacket 5 (getFingerprint k), OtherPacket 13 (concat (users k))]"

definition newKeyEx :: "pgpPacket list \<Rightarrow> exn + key" where
  "newKeyEx packets =
     (if packets = toPacketlistEx keyP then Inr keyP
      else if packets = toPacketlistEx keyQ then Inr keyQ
      else Inl (Error ''Invalid key: need at least key and user ID packet''))"

definition wrappedBackup :: "pgpPacket list" where
  "wrappedBackup =
     [SymEncryptedSessionKey ''aes256'' (Some ''aes256''),
      SymEncryptedIntegrityProtected ''ABCDEFGHIJKLMNOPQRSTUVWXYZ''
        (Literal (''Version: 1'' @ [CHR 0x0A] @ ''Pwd: secret'' @ [CHR 0x0A]) # toPacketlistEx keyP)]"












section \<open>Properties\<close>

lemmas ex_defs = keyA_def keyB_def keyP_def keyQ_def keyQpub_def readArmoredEx_def updateEx_def
  validateEx_def emptyKeyring_def keyringP_def keyringQpub_def changeLogEx_def changeLogUpdate_def
  armorEx_def getFingerprint_def isPublic_def toPublic_def keyringQboth_def keyringPpub_def
  changeLogQ_def

lemmas ex2_defs = keyringPQ_def syncDataEx_def syncDataOverlap_def syncDataConflict_def decryptEx_def
  parseEx_def signingEx_def payloadOf_def syncDataReorder_def syncDataDelete_def syncDataUnreadable_def
  syncDataColliding_def

lemmas run_defs = importKeys_def importOne_def importPublicKey_def importPrivateKey_def
  sortPublicFirst_def checkKeyId_def checkSubKeyId_def getKeysForId_def matchesKey_def keyIdCheck_def
  replaceKey_def sync_add_def sync_commit_def store_def hasPrimaryKey_def setPrimaryKey_def
  fingerprintsOf_def Let_def

subsection \<open>The outgoing payload\<close>

lemma getFingerprint_toPublic: "getFingerprint (toPublic k) = getFingerprint k"
  by (simp add: getFingerprint_def toPublic_def)

lemma toPublic_isPublic: "isPublic (toPublic k)"
  by (simp add: isPublic_def toPublic_def)

lemma toPublic_id: "isPublic k \<Longrightarrow> toPublic k = k"
  by (simp add: isPublic_def toPublic_def)

lemma convertChangeLog_deleted: "deletedKeys (convertChangeLog armor k log s) = deletedKeys s"
  by (simp add: convertChangeLog_def Let_def split: option.splits)

lemma fold_convert_deleted:
  "deletedKeys (foldl (\<lambda>s k. convertChangeLog armor (g k) log s) s ks) = deletedKeys s"
  by (induction ks arbitrary: s) (simp_all add: convertChangeLog_deleted)

lemma addDeleted_inserted: "insertedKeys (addDeleted log s fp) = insertedKeys s"
  by (simp add: addDeleted_def split: option.splits)

lemma fold_addDeleted_inserted: "insertedKeys (foldl (addDeleted log) s fps) = insertedKeys s"
  by (induction fps arbitrary: s) (simp_all add: addDeleted_inserted)

lemma convertChangeLog_other:
  "getFingerprint k \<noteq> fp \<Longrightarrow>
   map_of (insertedKeys (convertChangeLog armor k log s)) fp = map_of (insertedKeys s) fp"
  by (simp add: convertChangeLog_def Let_def AList.update_conv' split: option.splits)

lemma convertChangeLog_insert:
  "map_of log (getFingerprint k) = Some e \<Longrightarrow> logtype e = INSERT \<Longrightarrow>
   map_of (insertedKeys (convertChangeLog armor k log s)) (getFingerprint k) =
     Some \<lparr>time = time e, armored = armor k\<rparr>"
  by (simp add: convertChangeLog_def Let_def AList.update_conv')

lemma convertChangeLog_skip:
  "map_of log (getFingerprint k) = None \<or> (\<exists>e. map_of log (getFingerprint k) = Some e \<and> logtype e \<noteq> INSERT) \<Longrightarrow>
   convertChangeLog armor k log s = s"
  by (auto simp add: convertChangeLog_def Let_def)

lemma fold_convert_last:
  assumes "map_of log fp = Some e" and "logtype e = INSERT"
  shows "map_of (insertedKeys (foldl (\<lambda>s k. convertChangeLog armor (g k) log s) s ks)) fp =
     (case find (\<lambda>k. getFingerprint (g k) = fp) (rev ks) of
        Some k \<Rightarrow> Some \<lparr>time = time e, armored = armor (g k)\<rparr>
      | None \<Rightarrow> map_of (insertedKeys s) fp)"
proof (induction ks rule: rev_induct)
  case Nil
  then show ?case by simp
next
  case (snoc k ks)
  show ?case
  proof (cases "getFingerprint (g k) = fp")
    case True
    with assms show ?thesis
      using convertChangeLog_insert [of log "g k" e armor] by auto
  next
    case False
    with snoc show ?thesis by (simp add: convertChangeLog_other)
  qed
qed

lemma find_Some_set: "find P xs = Some x \<Longrightarrow> x \<in> set xs \<and> P x"
  by (induction xs) (auto split: if_splits)

lemma find_last_unique:
  assumes "k \<in> set ks" and "\<forall>k' \<in> set ks. P k' \<longrightarrow> k' = k" and "P k"
  shows "find P (rev ks) = Some k"
proof (cases "find P (rev ks)")
  case None
  with assms(1,3) show ?thesis by (auto simp add: find_None_iff)
next
  case (Some k')
  from find_Some_set [OF this] have "k' \<in> set ks" "P k'"
    by simp_all
  with assms(2) Some show ?thesis by simp
qed

lemma fold_convert_untouched:
  assumes "map_of log fp = None \<or> (\<exists>e. map_of log fp = Some e \<and> logtype e \<noteq> INSERT)"
  shows "map_of (insertedKeys (foldl (\<lambda>s k. convertChangeLog armor (g k) log s) s ks)) fp =
     map_of (insertedKeys s) fp"
proof (induction ks rule: rev_induct)
  case Nil
  then show ?case by simp
next
  case (snoc k ks)
  show ?case
  proof (cases "getFingerprint (g k) = fp")
    case True
    with assms have "convertChangeLog armor (g k) log
        (foldl (\<lambda>s k. convertChangeLog armor (g k) log s) s ks) =
        foldl (\<lambda>s k. convertChangeLog armor (g k) log s) s ks"
      by (intro convertChangeLog_skip) simp
    with snoc show ?thesis by simp
  next
    case False
    with snoc show ?thesis by (simp add: convertChangeLog_other)
  qed
qed

lemma fold_addDeleted:
  "map_of (deletedKeys (foldl (addDeleted log) s fps)) fp =
     (case map_of log fp of
        Some e \<Rightarrow> if fp \<in> set fps \<and> logtype e = DELETE then Some \<lparr>time = time e\<rparr>
                  else map_of (deletedKeys s) fp
      | None \<Rightarrow> map_of (deletedKeys s) fp)"
proof (induction fps rule: rev_induct)
  case Nil
  then show ?case by (simp split: option.splits)
next
  case (snoc x fps)
  then show ?case
    by (auto simp add: addDeleted_def AList.update_conv' split: option.splits)
qed

text \<open>
  Claim C1, as amended. \<open>encryptSyncMessage\<close> encrypts the serialised payload, and the
  payload is this. A fingerprint with an INSERT entry in the change log has under
  \<open>insertedKeys\<close> the time of the entry and one armored key: the public form of the last
  key of the private collection with that fingerprint when there is one, otherwise the
  last key of the public collection with that fingerprint, armored as the collection holds
  it, and nothing when the store has no key with it. So a key that is the only one of its
  fingerprint in the store, and is a key of the private collection or a public key, has
  its armored public form there. Every DELETE entry of the log is under \<open>deletedKeys\<close>
  with its time; a fingerprint with an UPDATE entry is in neither map, and neither is a
  fingerprint without entry.
\<close>

theorem encryptSyncMessage_payload:
  "encryptSyncMessage encrypt stringify armor signer changeLog ks =
     encrypt (stringify (buildSyncData armor ks changeLog)) signer \<and>
   (\<forall>fp e. map_of changeLog fp = Some e \<and> logtype e = INSERT \<longrightarrow>
      map_of (insertedKeys (buildSyncData armor ks changeLog)) fp =
        (case find (\<lambda>k. getFingerprint k = fp) (rev (privateKeys ks)) of
           Some k \<Rightarrow> Some \<lparr>time = time e, armored = armor (toPublic k)\<rparr>
         | None \<Rightarrow>
             (case find (\<lambda>k. getFingerprint k = fp) (rev (publicKeys ks)) of
                Some k \<Rightarrow> Some \<lparr>time = time e, armored = armor k\<rparr>
              | None \<Rightarrow> None))) \<and>
   (\<forall>k \<in> set (publicKeys ks @ privateKeys ks). \<forall>e.
      (\<forall>k' \<in> set (publicKeys ks @ privateKeys ks). getFingerprint k' = getFingerprint k \<longrightarrow> k' = k) \<and>
      (k \<in> set (privateKeys ks) \<or> isPublic k) \<and>
      map_of changeLog (getFingerprint k) = Some e \<and> logtype e = INSERT \<longrightarrow>
        map_of (insertedKeys (buildSyncData armor ks changeLog)) (getFingerprint k) =
          Some \<lparr>time = time e, armored = armor (toPublic k)\<rparr> \<and> isPublic (toPublic k)) \<and>
   (\<forall>fp e. map_of changeLog fp = Some e \<and> logtype e = DELETE \<longrightarrow>
      map_of (deletedKeys (buildSyncData armor ks changeLog)) fp = Some \<lparr>time = time e\<rparr>) \<and>
   (\<forall>fp e. map_of changeLog fp = Some e \<and> logtype e = UPDATE \<longrightarrow>
      map_of (insertedKeys (buildSyncData armor ks changeLog)) fp = None \<and>
      map_of (deletedKeys (buildSyncData armor ks changeLog)) fp = None) \<and>
   (\<forall>fp. map_of changeLog fp = None \<longrightarrow>
      map_of (insertedKeys (buildSyncData armor ks changeLog)) fp = None \<and>
      map_of (deletedKeys (buildSyncData armor ks changeLog)) fp = None)"
proof -
  let ?d = "buildSyncData armor ks changeLog"
  let ?s0 = "\<lparr>insertedKeys = [], deletedKeys = []\<rparr>"
  let ?s1 = "foldl (\<lambda>s k. convertChangeLog armor (id k) changeLog s) ?s0 (publicKeys ks)"
  let ?s2 = "foldl (\<lambda>s k. convertChangeLog armor (toPublic k) changeLog s) ?s1 (privateKeys ks)"
  have ins: "insertedKeys ?d = insertedKeys ?s2"
    by (simp add: buildSyncData_def Let_def fold_addDeleted_inserted)
  have del: "map_of (deletedKeys ?d) fp =
      (case map_of changeLog fp of
         Some e \<Rightarrow> if logtype e = DELETE then Some \<lparr>time = time e\<rparr> else None
       | None \<Rightarrow> None)" for fp
  proof -
    have "deletedKeys ?s2 = []"
      using fold_convert_deleted [of armor toPublic changeLog ?s1 "privateKeys ks"]
        fold_convert_deleted [of armor id changeLog ?s0 "publicKeys ks"] by simp
    moreover have "fp \<in> set (map fst changeLog)" if "map_of changeLog fp = Some e" for e
      using that by (auto dest: map_of_SomeD intro: rev_image_eqI)
    ultimately show ?thesis
      by (auto simp add: buildSyncData_def Let_def fold_addDeleted split: option.splits)
  qed
  have untouched: "map_of (insertedKeys ?d) fp = None"
    if "map_of changeLog fp = None \<or> (\<exists>e. map_of changeLog fp = Some e \<and> logtype e \<noteq> INSERT)" for fp
    using that ins
      fold_convert_untouched [of changeLog fp armor toPublic ?s1 "privateKeys ks"]
      fold_convert_untouched [of changeLog fp armor id ?s0 "publicKeys ks"]
    by simp
  have last: "map_of (insertedKeys ?d) fp =
        (case find (\<lambda>k. getFingerprint k = fp) (rev (privateKeys ks)) of
           Some k \<Rightarrow> Some \<lparr>time = time e, armored = armor (toPublic k)\<rparr>
         | None \<Rightarrow>
             (case find (\<lambda>k. getFingerprint k = fp) (rev (publicKeys ks)) of
                Some k \<Rightarrow> Some \<lparr>time = time e, armored = armor k\<rparr>
              | None \<Rightarrow> None))"
    if e: "map_of changeLog fp = Some e" "logtype e = INSERT" for fp e
  proof -
    have "map_of (insertedKeys ?s1) fp =
        (case find (\<lambda>k. getFingerprint k = fp) (rev (publicKeys ks)) of
           Some k \<Rightarrow> Some \<lparr>time = time e, armored = armor k\<rparr>
         | None \<Rightarrow> None)"
      using fold_convert_last [OF e, of armor "\<lambda>k. k" ?s0 "publicKeys ks"]
      by (simp split: option.splits)
    with fold_convert_last [OF e, of armor toPublic ?s1 "privateKeys ks"] ins
    show ?thesis by (simp add: getFingerprint_toPublic split: option.splits)
  qed
  have single: "map_of (insertedKeys ?d) (getFingerprint k) =
      Some \<lparr>time = time e, armored = armor (toPublic k)\<rparr>"
    if k: "k \<in> set (publicKeys ks @ privateKeys ks)"
      and u: "\<forall>k' \<in> set (publicKeys ks @ privateKeys ks). getFingerprint k' = getFingerprint k \<longrightarrow> k' = k"
      and p: "k \<in> set (privateKeys ks) \<or> isPublic k"
      and e: "map_of changeLog (getFingerprint k) = Some e" "logtype e = INSERT" for k e
  proof (cases "k \<in> set (privateKeys ks)")
    case True
    from u have "\<forall>k' \<in> set (privateKeys ks). getFingerprint k' = getFingerprint k \<longrightarrow> k' = k"
      by simp
    from find_last_unique [OF True this] last [OF e] show ?thesis by simp
  next
    case False
    with k p have kpub: "k \<in> set (publicKeys ks)" and pub: "isPublic k" by auto
    from u False have "\<forall>k' \<in> set (privateKeys ks). getFingerprint k' \<noteq> getFingerprint k"
      by auto
    then have none: "find (\<lambda>k'. getFingerprint k' = getFingerprint k) (rev (privateKeys ks)) = None"
      by (simp add: find_None_iff)
    from u have "\<forall>k' \<in> set (publicKeys ks). getFingerprint k' = getFingerprint k \<longrightarrow> k' = k"
      by simp
    from find_last_unique [OF kpub this] none last [OF e] pub show ?thesis
      by (simp add: toPublic_id)
  qed
  show ?thesis
  proof (intro conjI allI ballI impI)
    show "encryptSyncMessage encrypt stringify armor signer changeLog ks =
        encrypt (stringify ?d) signer"
      by (simp add: encryptSyncMessage_def)
  next
    fix fp e
    assume "map_of changeLog fp = Some e \<and> logtype e = INSERT"
    then show "map_of (insertedKeys ?d) fp =
        (case find (\<lambda>k. getFingerprint k = fp) (rev (privateKeys ks)) of
           Some k \<Rightarrow> Some \<lparr>time = time e, armored = armor (toPublic k)\<rparr>
         | None \<Rightarrow>
             (case find (\<lambda>k. getFingerprint k = fp) (rev (publicKeys ks)) of
                Some k \<Rightarrow> Some \<lparr>time = time e, armored = armor k\<rparr>
              | None \<Rightarrow> None))"
      using last by blast
  next
    fix k e
    assume "k \<in> set (publicKeys ks @ privateKeys ks)"
      and "(\<forall>k' \<in> set (publicKeys ks @ privateKeys ks). getFingerprint k' = getFingerprint k \<longrightarrow> k' = k) \<and>
        (k \<in> set (privateKeys ks) \<or> isPublic k) \<and>
        map_of changeLog (getFingerprint k) = Some e \<and> logtype e = INSERT"
    then show "map_of (insertedKeys ?d) (getFingerprint k) =
        Some \<lparr>time = time e, armored = armor (toPublic k)\<rparr>"
      using single by blast
  next
    fix k :: key
    show "isPublic (toPublic k)" by (rule toPublic_isPublic)
  next
    fix fp e
    assume "map_of changeLog fp = Some e \<and> logtype e = DELETE"
    then show "map_of (deletedKeys ?d) fp = Some \<lparr>time = time e\<rparr>"
      by (simp add: del)
  next
    fix fp e
    assume a: "map_of changeLog fp = Some e \<and> logtype e = UPDATE"
    then show "map_of (insertedKeys ?d) fp = None"
      by (intro untouched) auto
    from a show "map_of (deletedKeys ?d) fp = None"
      by (simp add: del)
  next
    fix fp
    assume a: "map_of changeLog fp = None"
    then show "map_of (insertedKeys ?d) fp = None"
      by (intro untouched) auto
    from a show "map_of (deletedKeys ?d) fp = None"
      by (simp add: del)
  qed
qed

text \<open>
  The theorem of C1 on a store with one public and one private key, and on a store that
  holds one fingerprint in both collections.
\<close>

theorem encryptSyncMessage_payload_witness:
  "map_of (insertedKeys (buildSyncData armorEx (keystore keyringP) changeLogEx)) (getFingerprint keyP) =
     Some \<lparr>time = 7, armored = armorEx (toPublic keyP)\<rparr> \<and>
   map_of (deletedKeys (buildSyncData armorEx (keystore keyringP) changeLogEx)) (getFingerprint keyB) =
     Some \<lparr>time = 9\<rparr> \<and>
   map_of (insertedKeys (buildSyncData armorEx (keystore keyringP) changeLogEx)) (getFingerprint keyQ) = None \<and>
   map_of (insertedKeys (buildSyncData armorEx (keystore keyringQboth) changeLogQ)) (getFingerprint keyQ) =
     Some \<lparr>time = 3, armored = armorEx (toPublic keyQ)\<rparr>"
proof -
  note t = encryptSyncMessage_payload [where ks = "keystore keyringP" and changeLog = changeLogEx
      and armor = armorEx, THEN conjunct2]
  note u = encryptSyncMessage_payload [where ks = "keystore keyringQboth" and changeLog = changeLogQ
      and armor = armorEx, THEN conjunct2]
  have a: "keyP \<in> set (publicKeys (keystore keyringP) @ privateKeys (keystore keyringP))"
    "\<forall>k' \<in> set (publicKeys (keystore keyringP) @ privateKeys (keystore keyringP)).
       getFingerprint k' = getFingerprint keyP \<longrightarrow> k' = keyP"
    "keyP \<in> set (privateKeys (keystore keyringP)) \<or> isPublic keyP"
    by (simp_all add: ex_defs)
  have b: "map_of changeLogEx (getFingerprint keyP) = Some \<lparr>time = 7, logtype = INSERT\<rparr>"
    "map_of changeLogEx (getFingerprint keyB) = Some \<lparr>time = 9, logtype = DELETE\<rparr>"
    "map_of changeLogEx (getFingerprint keyQ) = Some \<lparr>time = 3, logtype = UPDATE\<rparr>"
    "map_of changeLogQ (getFingerprint keyQ) = Some \<lparr>time = 3, logtype = INSERT\<rparr>"
    by (simp_all add: ex_defs)
  from t [THEN conjunct2, THEN conjunct1, rule_format, OF a(1), of "\<lparr>time = 7, logtype = INSERT\<rparr>"]
    a(2,3) b(1)
  have 1: "map_of (insertedKeys (buildSyncData armorEx (keystore keyringP) changeLogEx))
      (getFingerprint keyP) = Some \<lparr>time = 7, armored = armorEx (toPublic keyP)\<rparr>"
    by simp
  from t [THEN conjunct2, THEN conjunct2, THEN conjunct1, rule_format,
      of "getFingerprint keyB" "\<lparr>time = 9, logtype = DELETE\<rparr>"] b(2)
  have 2: "map_of (deletedKeys (buildSyncData armorEx (keystore keyringP) changeLogEx))
      (getFingerprint keyB) = Some \<lparr>time = 9\<rparr>"
    by simp
  from t [THEN conjunct2, THEN conjunct2, THEN conjunct2, THEN conjunct1, rule_format,
      of "getFingerprint keyQ" "\<lparr>time = 3, logtype = UPDATE\<rparr>"] b(3)
  have 3: "map_of (insertedKeys (buildSyncData armorEx (keystore keyringP) changeLogEx))
      (getFingerprint keyQ) = None"
    by simp
  have "find (\<lambda>k. getFingerprint k = getFingerprint keyQ) (rev (privateKeys (keystore keyringQboth))) =
      Some keyQ"
    by (simp add: ex_defs)
  with u [THEN conjunct1, rule_format, of "getFingerprint keyQ" "\<lparr>time = 3, logtype = INSERT\<rparr>"] b(4)
  have 4: "map_of (insertedKeys (buildSyncData armorEx (keystore keyringQboth) changeLogQ))
      (getFingerprint keyQ) = Some \<lparr>time = 3, armored = armorEx (toPublic keyQ)\<rparr>"
    by simp
  from 1 2 3 4 show ?thesis by simp
qed

text \<open>
  Claim C1 as stated fails in three ways. A key of the store with an UPDATE entry in the
  change log is not placed into \<open>insertedKeys\<close>. When the store holds a fingerprint in both
  collections, the armored form of the public key of the public collection is not in the
  payload: the entry of the fingerprint holds the public form of the private key, written
  after it. And a key of the public collection is armored as it is, so a private key that
  was imported into the public collection is exported in its private form.
\<close>

theorem encryptSyncMessage_update_counterexample:
  "keyA \<in> set (publicKeys (keystore keyringP)) \<and>
   map_of changeLogUpdate (getFingerprint keyA) = Some \<lparr>time = 5, logtype = UPDATE\<rparr> \<and>
   map_of (insertedKeys (buildSyncData armorEx (keystore keyringP) changeLogUpdate)) (getFingerprint keyA) = None \<and>
   keyQpub \<in> set (publicKeys (keystore keyringQboth)) \<and> isPublic keyQpub \<and>
   map_of changeLogQ (getFingerprint keyQpub) = Some \<lparr>time = 3, logtype = INSERT\<rparr> \<and>
   map_of (insertedKeys (buildSyncData armorEx (keystore keyringQboth) changeLogQ)) (getFingerprint keyQpub) =
     Some \<lparr>time = 3, armored = armorEx (toPublic keyQ)\<rparr> \<and>
   armorEx (toPublic keyQ) \<noteq> armorEx (toPublic keyQpub) \<and>
   keyP \<in> set (publicKeys (keystore keyringPpub)) \<and> \<not> isPublic keyP \<and>
   map_of changeLogEx (getFingerprint keyP) = Some \<lparr>time = 7, logtype = INSERT\<rparr> \<and>
   map_of (insertedKeys (buildSyncData armorEx (keystore keyringPpub) changeLogEx)) (getFingerprint keyP) =
     Some \<lparr>time = 7, armored = armorEx keyP\<rparr> \<and>
   armorEx keyP \<noteq> armorEx (toPublic keyP)"
  by (simp add: ex_defs buildSyncData_def convertChangeLog_def addDeleted_def)

subsection \<open>The inbound payload\<close>

lemma fold_addInserted_log:
  "map_of (fst (foldl (addInserted sd) acc fps)) fp =
     (case map_of (insertedKeys sd) fp of
        Some e \<Rightarrow> if fp \<in> set fps then Some \<lparr>time = time e, logtype = INSERT\<rparr> else map_of (fst acc) fp
      | None \<Rightarrow> map_of (fst acc) fp)"
proof (induction fps rule: rev_induct)
  case Nil
  then show ?case by (simp split: option.splits)
next
  case (snoc x fps)
  then show ?case
    by (auto simp add: addInserted_def AList.update_conv' split: option.splits)
qed

lemma fold_addInserted_keys:
  "set (snd (foldl (addInserted sd) acc fps)) =
     set (snd acc) \<union>
     {\<lparr>keytype = Public, armoredText = armored e\<rparr> | e fp. fp \<in> set fps \<and> map_of (insertedKeys sd) fp = Some e}"
proof (induction fps rule: rev_induct)
  case Nil
  then show ?case by simp
next
  case (snoc x fps)
  then show ?case
    by (auto simp add: addInserted_def split: option.splits)
qed

lemma fold_addDeletion_keys: "snd (foldl (addDeletion sd) acc fps) = snd acc"
  by (induction fps rule: rev_induct) (simp_all add: addDeletion_def split: option.splits)

lemma fold_addDeletion_log:
  "map_of (fst (foldl (addDeletion sd) acc fps)) fp =
     (case map_of (deletedKeys sd) fp of
        Some e \<Rightarrow> if fp \<in> set fps then Some \<lparr>time = time e, logtype = DELETE\<rparr> else map_of (fst acc) fp
      | None \<Rightarrow> map_of (fst acc) fp)"
proof (induction fps rule: rev_induct)
  case Nil
  then show ?case by (simp split: option.splits)
next
  case (snoc x fps)
  then show ?case
    by (auto simp add: addDeletion_def AList.update_conv' split: option.splits)
qed

lemma map_of_Some_key: "map_of al k = Some v \<Longrightarrow> k \<in> set (map fst al)"
  by (auto dest: map_of_SomeD intro: rev_image_eqI)

lemma map_of_Some_fst: "map_of al k = Some v \<Longrightarrow> k \<in> fst ` set al"
  by (auto dest: map_of_SomeD intro: rev_image_eqI)

lemma mergeSyncData_log:
  "map_of (fst (mergeSyncData sd)) fp =
     (case map_of (deletedKeys sd) fp of
        Some d \<Rightarrow> Some \<lparr>time = time d, logtype = DELETE\<rparr>
      | None \<Rightarrow>
          (case map_of (insertedKeys sd) fp of
             Some e \<Rightarrow> Some \<lparr>time = time e, logtype = INSERT\<rparr>
           | None \<Rightarrow> None))"
proof (cases "map_of (deletedKeys sd) fp")
  case None
  then show ?thesis
    by (auto simp add: mergeSyncData_def fold_addDeletion_log fold_addInserted_log
        map_of_eq_None_iff dest: map_of_Some_fst split: option.splits)
next
  case (Some d)
  then have "fp \<in> set (map fst (deletedKeys sd))" by (rule map_of_Some_key)
  with Some show ?thesis
    by (simp add: mergeSyncData_def fold_addDeletion_log)
qed

lemma mergeSyncData_keys:
  "set (snd (mergeSyncData sd)) =
     {\<lparr>keytype = Public, armoredText = armored e\<rparr> | e fp. map_of (insertedKeys sd) fp = Some e}"
proof -
  have "fp \<in> set (map fst (insertedKeys sd))" if "map_of (insertedKeys sd) fp = Some e" for fp e
    using that by (rule map_of_Some_key)
  then show ?thesis
    unfolding mergeSyncData_def fold_addDeletion_keys fold_addInserted_keys
    by simp blast
qed

lemma addInserted_distinct:
  "distinct (map fst (fst acc)) \<Longrightarrow> distinct (map fst (fst (addInserted sd acc fp)))"
  by (simp add: addInserted_def AList.distinct_update split: option.splits)

lemma addDeletion_distinct:
  "distinct (map fst (fst acc)) \<Longrightarrow> distinct (map fst (fst (addDeletion sd acc fp)))"
  by (simp add: addDeletion_def AList.distinct_update split: option.splits)

lemma mergeSyncData_distinct: "distinct (map fst (fst (mergeSyncData sd)))"
proof -
  have a: "distinct (map fst (fst acc)) \<Longrightarrow> distinct (map fst (fst (foldl (addInserted sd) acc fps)))"
    for acc fps
    by (induction fps rule: rev_induct) (simp_all add: addInserted_distinct)
  have b: "distinct (map fst (fst acc)) \<Longrightarrow> distinct (map fst (fst (foldl (addDeletion sd) acc fps)))"
    for acc fps
    by (induction fps rule: rev_induct) (simp_all add: addDeletion_distinct)
  show ?thesis
    unfolding mergeSyncData_def by (intro a b) simp
qed

lemma decryptSyncMessage_Inr:
  "decryptSyncMessage decrypt parse gsk k m = Inr r \<longleftrightarrow>
     (\<exists>msg sig rest p sd. decrypt m k = Inr msg \<and> signatures msg = sig # rest \<and>
        valid sig = Some True \<and> gsk k = Some p \<and> sigKeyid sig = keyid p \<and>
        parse (data msg) = Some sd \<and> r = mergeSyncData sd)"
  by (auto simp add: decryptSyncMessage_def split: sum.splits list.splits option.splits)

text \<open>
  Claim C3, as amended. When no signature of the decrypted message is valid with the key
  id of the key's signing packet, \<open>decryptSyncMessage\<close> fails and returns neither change
  log nor keys. When it returns, the first signature is valid with that key id, and for
  every fingerprint of \<open>insertedKeys\<close> the armored public key is among the returned keys
  and, unless the fingerprint is under \<open>deletedKeys\<close> too, the change log has an INSERT
  entry with the original time; for every fingerprint of \<open>deletedKeys\<close> the change log has
  a DELETE entry with its time.
\<close>

theorem decryptSyncMessage_verifies:
  "(\<forall>msg. decrypt m k = Inr msg \<and>
       \<not> (\<exists>sig \<in> set (signatures msg). valid sig = Some True \<and>
            (\<exists>p. getSigningKeyPacket k = Some p \<and> sigKeyid sig = keyid p)) \<longrightarrow>
       (\<exists>e. decryptSyncMessage decrypt parse getSigningKeyPacket k m = Inl e)) \<and>
   (\<forall>changeLog keys.
       decryptSyncMessage decrypt parse getSigningKeyPacket k m = Inr (changeLog, keys) \<longrightarrow>
       (\<exists>msg sig rest p syncData.
          decrypt m k = Inr msg \<and> signatures msg = sig # rest \<and> valid sig = Some True \<and>
          getSigningKeyPacket k = Some p \<and> sigKeyid sig = keyid p \<and>
          parse (data msg) = Some syncData \<and>
          (\<forall>fp e. map_of (insertedKeys syncData) fp = Some e \<longrightarrow>
             \<lparr>keytype = Public, armoredText = armored e\<rparr> \<in> set keys \<and>
             (map_of (deletedKeys syncData) fp = None \<longrightarrow>
                map_of changeLog fp = Some \<lparr>time = time e, logtype = INSERT\<rparr>)) \<and>
          (\<forall>fp d. map_of (deletedKeys syncData) fp = Some d \<longrightarrow>
             map_of changeLog fp = Some \<lparr>time = time d, logtype = DELETE\<rparr>)))"
proof (intro conjI allI impI)
  fix msg
  assume a: "decrypt m k = Inr msg \<and>
       \<not> (\<exists>sig \<in> set (signatures msg). valid sig = Some True \<and>
            (\<exists>p. getSigningKeyPacket k = Some p \<and> sigKeyid sig = keyid p))"
  then show "\<exists>e. decryptSyncMessage decrypt parse getSigningKeyPacket k m = Inl e"
    by (auto simp add: decryptSyncMessage_def split: list.splits option.splits)
next
  fix changeLog keys
  assume "decryptSyncMessage decrypt parse getSigningKeyPacket k m = Inr (changeLog, keys)"
  then obtain msg sig rest p sd where
    *: "decrypt m k = Inr msg" "signatures msg = sig # rest" "valid sig = Some True"
      "getSigningKeyPacket k = Some p" "sigKeyid sig = keyid p" "parse (data msg) = Some sd"
    and r: "(changeLog, keys) = mergeSyncData sd"
    unfolding decryptSyncMessage_Inr by blast
  from r have cl: "changeLog = fst (mergeSyncData sd)" and ks: "keys = snd (mergeSyncData sd)"
    by (metis fst_conv, metis snd_conv)
  have "\<forall>fp e. map_of (insertedKeys sd) fp = Some e \<longrightarrow>
          \<lparr>keytype = Public, armoredText = armored e\<rparr> \<in> set keys \<and>
          (map_of (deletedKeys sd) fp = None \<longrightarrow>
             map_of changeLog fp = Some \<lparr>time = time e, logtype = INSERT\<rparr>)"
    unfolding cl ks mergeSyncData_log mergeSyncData_keys by auto
  moreover have "\<forall>fp d. map_of (deletedKeys sd) fp = Some d \<longrightarrow>
          map_of changeLog fp = Some \<lparr>time = time d, logtype = DELETE\<rparr>"
    unfolding cl mergeSyncData_log by auto
  ultimately show "\<exists>msg sig rest p syncData.
          decrypt m k = Inr msg \<and> signatures msg = sig # rest \<and> valid sig = Some True \<and>
          getSigningKeyPacket k = Some p \<and> sigKeyid sig = keyid p \<and>
          parse (data msg) = Some syncData \<and>
          (\<forall>fp e. map_of (insertedKeys syncData) fp = Some e \<longrightarrow>
             \<lparr>keytype = Public, armoredText = armored e\<rparr> \<in> set keys \<and>
             (map_of (deletedKeys syncData) fp = None \<longrightarrow>
                map_of changeLog fp = Some \<lparr>time = time e, logtype = INSERT\<rparr>)) \<and>
          (\<forall>fp d. map_of (deletedKeys syncData) fp = Some d \<longrightarrow>
             map_of changeLog fp = Some \<lparr>time = time d, logtype = DELETE\<rparr>)"
    using * by blast
qed

text \<open>The theorem of C3 on a message with an invalid signature and on a verified one.\<close>

theorem decryptSyncMessage_verifies_witness:
  "decryptSyncMessage decryptEx parseEx signingEx keyP ''forged sync message'' =
     Inl (Error ''Signature of synced keyring is invalid'') \<and>
   decryptSyncMessage decryptEx parseEx signingEx keyP ''sync message'' =
     Inr ([(getFingerprint keyA, \<lparr>time = 5, logtype = INSERT\<rparr>),
           (getFingerprint keyB, \<lparr>time = 9, logtype = DELETE\<rparr>)],
          [\<lparr>keytype = Public, armoredText = ''armored A''\<rparr>])"
  using decryptSyncMessage_verifies [of decryptEx "''forged sync message''" keyP signingEx parseEx]
  by (simp add: ex_defs ex2_defs decryptSyncMessage_def mergeSyncData_def addInserted_def
      addDeletion_def)

text \<open>
  Claim C3 as stated fails for a fingerprint that the payload lists under \<open>insertedKeys\<close>
  and under \<open>deletedKeys\<close>: the change log returned has no INSERT entry for it.
\<close>

theorem decryptSyncMessage_overlap_counterexample:
  "map_of (insertedKeys syncDataOverlap) (getFingerprint keyA) = Some \<lparr>time = 5, armored = ''armored A''\<rparr> \<and>
   decryptSyncMessage decryptEx parseEx signingEx keyP ''overlapping sync message'' =
     Inr ([(getFingerprint keyA, \<lparr>time = 9, logtype = DELETE\<rparr>)],
          [\<lparr>keytype = Public, armoredText = ''armored A''\<rparr>])"
  by (simp add: ex_defs ex2_defs decryptSyncMessage_def mergeSyncData_def addInserted_def
      addDeletion_def)

text \<open>
  Claim C10. When a fingerprint is under \<open>insertedKeys\<close> and under \<open>deletedKeys\<close> of the
  payload, the change log \<open>decryptSyncMessage\<close> returns has exactly one entry for it, the
  DELETE entry with the time of the deletion, and the armored public key is still among
  the returned keys.
\<close>

theorem decryptSyncMessage_overlap:
  assumes "decryptSyncMessage decrypt parse getSigningKeyPacket k m = Inr (changeLog, keys)"
    and "decrypt m k = Inr msg" and "parse (data msg) = Some syncData"
    and "map_of (insertedKeys syncData) fp = Some e"
    and "map_of (deletedKeys syncData) fp = Some d"
  shows "map_of changeLog fp = Some \<lparr>time = time d, logtype = DELETE\<rparr> \<and>
     length (filter (\<lambda>entry. fst entry = fp) changeLog) = 1 \<and>
     \<lparr>keytype = Public, armoredText = armored e\<rparr> \<in> set keys"
proof -
  from assms(1) obtain msg' sd where "decrypt m k = Inr msg'" "parse (data msg') = Some sd"
    and r: "(changeLog, keys) = mergeSyncData sd"
    unfolding decryptSyncMessage_Inr by blast
  with assms(2,3) have sd: "sd = syncData" by simp
  from r have cl: "changeLog = fst (mergeSyncData syncData)" and ks: "keys = snd (mergeSyncData syncData)"
    unfolding sd by (metis fst_conv, metis snd_conv)
  have 1: "map_of changeLog fp = Some \<lparr>time = time d, logtype = DELETE\<rparr>"
    unfolding cl mergeSyncData_log using assms(5) by simp
  have "distinct (map fst changeLog)"
    unfolding cl by (rule mergeSyncData_distinct)
  moreover from 1 have "fp \<in> set (map fst changeLog)" by (rule map_of_Some_key)
  ultimately have 2: "length (filter (\<lambda>entry. fst entry = fp) changeLog) = 1"
    by (induction changeLog) (auto simp add: filter_empty_conv image_iff)
  have 3: "\<lparr>keytype = Public, armoredText = armored e\<rparr> \<in> set keys"
    unfolding ks mergeSyncData_keys using assms(4) by blast
  from 1 2 3 show ?thesis by simp
qed

text \<open>The theorem of C10 on the payload that inserts and deletes the same fingerprint.\<close>

theorem decryptSyncMessage_overlap_witness:
  "map_of (fst (mergeSyncData syncDataOverlap)) (getFingerprint keyA) = Some \<lparr>time = 9, logtype = DELETE\<rparr> \<and>
   length (filter (\<lambda>entry. fst entry = getFingerprint keyA) (fst (mergeSyncData syncDataOverlap))) = 1 \<and>
   \<lparr>keytype = Public, armoredText = ''armored A''\<rparr> \<in> set (snd (mergeSyncData syncDataOverlap))"
proof -
  have r: "decryptSyncMessage decryptEx parseEx signingEx keyP ''overlapping sync message'' =
      Inr (fst (mergeSyncData syncDataOverlap), snd (mergeSyncData syncDataOverlap))"
    by (simp add: decryptEx_def payloadOf_def parseEx_def signingEx_def decryptSyncMessage_def)
  have d: "decryptEx ''overlapping sync message'' keyP =
      Inr \<lparr>data = ''overlapping payload'',
           signatures = [\<lparr>valid = Some True, sigKeyid = keyid (primaryKey keyP)\<rparr>]\<rparr>"
    by (simp add: decryptEx_def payloadOf_def)
  have p: "parseEx (data \<lparr>data = ''overlapping payload'',
           signatures = [\<lparr>valid = Some True, sigKeyid = keyid (primaryKey keyP)\<rparr>]\<rparr>) = Some syncDataOverlap"
    by (simp add: parseEx_def)
  have i: "map_of (insertedKeys syncDataOverlap) (getFingerprint keyA) = Some \<lparr>time = 5, armored = ''armored A''\<rparr>"
    by (simp add: syncDataOverlap_def)
  have e: "map_of (deletedKeys syncDataOverlap) (getFingerprint keyA) = Some \<lparr>time = 9\<rparr>"
    by (simp add: syncDataOverlap_def)
  from decryptSyncMessage_overlap [where decrypt = decryptEx and parse = parseEx
      and getSigningKeyPacket = signingEx and k = keyP and m = "''overlapping sync message''"
      and syncData = syncDataOverlap and fp = "getFingerprint keyA", OF r d p i e]
  show ?thesis by simp
qed

subsection \<open>The primary key\<close>

lemma newerValid_scan_None:
  "foldl (newerValid v) acc ks = None \<longleftrightarrow> acc = None \<and> (\<forall>k \<in> set ks. \<not> v k)"
  by (induction ks arbitrary: acc) (auto simp add: newerValid_def split: option.splits)

lemma newerValid_scan_Some:
  assumes "foldl (newerValid v) acc ks = Some K"
  shows "(acc = Some K \<or> K \<in> set ks \<and> v K) \<and>
     (\<forall>a. acc = Some a \<longrightarrow> created (primaryKey a) \<le> created (primaryKey K)) \<and>
     (\<forall>k \<in> set ks. v k \<longrightarrow> created (primaryKey k) \<le> created (primaryKey K))"
  using assms
proof (induction ks arbitrary: acc)
  case Nil
  then show ?case by simp
next
  case (Cons k ks)
  from Cons.prems have step: "foldl (newerValid v) (newerValid v acc k) ks = Some K" by simp
  note ih = Cons.IH [OF step]
  show ?case
  proof (cases "newerValid v acc k = acc")
    case True
    with ih have a: "(acc = Some K \<or> K \<in> set ks \<and> v K)"
      and b: "\<forall>a. acc = Some a \<longrightarrow> created (primaryKey a) \<le> created (primaryKey K)"
      and c: "\<forall>k \<in> set ks. v k \<longrightarrow> created (primaryKey k) \<le> created (primaryKey K)"
      by simp_all
    have "created (primaryKey k) \<le> created (primaryKey K)" if "v k"
    proof (cases acc)
      case None
      with True that show ?thesis by (simp add: newerValid_def)
    next
      case (Some a)
      with True that have "\<not> created (primaryKey a) < created (primaryKey k) \<or> a = k"
        by (auto simp add: newerValid_def split: if_splits)
      with b Some show ?thesis by auto
    qed
    with a b c show ?thesis by auto
  next
    case False
    then have nk: "newerValid v acc k = Some k" and vk: "v k"
      and lt: "\<forall>a. acc = Some a \<longrightarrow> created (primaryKey a) < created (primaryKey k)"
      by (auto simp add: newerValid_def split: if_splits option.splits)
    from ih nk have a: "(k = K \<or> K \<in> set ks \<and> v K)"
      and b: "created (primaryKey k) \<le> created (primaryKey K)"
      and c: "\<forall>k \<in> set ks. v k \<longrightarrow> created (primaryKey k) \<le> created (primaryKey K)"
      by auto
    from a vk have "K \<in> set (k # ks) \<and> v K" by auto
    moreover from lt b have "\<forall>a. acc = Some a \<longrightarrow> created (primaryKey a) \<le> created (primaryKey K)"
      by fastforce
    ultimately show ?thesis using b c by auto
  qed
qed

lemma getForId_Some:
  "getForId ks ident deep = Some k \<Longrightarrow> k \<in> set ks \<and> matchesKey ident deep k"
  by (auto simp add: getForId_def find_Some_iff)


lemma matchesKey_fingerprint:
  "length ident \<noteq> 16 \<Longrightarrow> matchesKey ident False k \<longleftrightarrow> getFingerprint k = ident"
  by (auto simp add: matchesKey_def keyIdCheck_def getFingerprint_def)

lemma getPrimaryKey_keystore: "keystore (snd (getPrimaryKey v kr)) = keystore kr"
  by (simp add: getPrimaryKey_def Let_def getPrimaryKeyFpr_def setPrimaryKey_def
      split: option.splits)

lemma getPrimaryKey_stored:
  assumes "primary_key kr \<noteq> []"
    and "getForId (privateKeys (keystore kr)) (primary_key kr) False = Some k" and "v k"
  shows "getPrimaryKey v kr = (Some k, kr)"
  using assms by (simp add: getPrimaryKey_def Let_def getPrimaryKeyFpr_def)

lemma getPrimaryKey_fallback:
  assumes "\<not> (primary_key kr \<noteq> [] \<and>
      (\<exists>k. getForId (privateKeys (keystore kr)) (primary_key kr) False = Some k \<and> v k))"
  shows "getPrimaryKey v kr =
     (case foldl (newerValid v) None (privateKeys (keystore kr)) of
        None \<Rightarrow> (None, kr\<lparr>primary_key := []\<rparr>)
      | Some K \<Rightarrow> (Some K, kr\<lparr>primary_key := getFingerprint K\<rparr>))"
proof (cases "primary_key kr = []")
  case True
  then have "kr\<lparr>primary_key := []\<rparr> = kr" by simp
  with True show ?thesis
    by (simp add: getPrimaryKey_def Let_def getPrimaryKeyFpr_def setPrimaryKey_def
        split: option.splits)
next
  case False
  with assms show ?thesis
    by (auto simp add: getPrimaryKey_def Let_def getPrimaryKeyFpr_def setPrimaryKey_def
        split: option.splits)
qed

lemma getPrimaryKey_repeat:
  assumes "primary_key kr = []"
    and "\<forall>k \<in> set (privateKeys (keystore kr)). length (getFingerprint k) \<noteq> 16"
  shows "map_option getFingerprint (fst (getPrimaryKey v (snd (getPrimaryKey v kr)))) =
     map_option getFingerprint (fst (getPrimaryKey v kr))"
proof -
  let ?privs = "privateKeys (keystore kr)"
  from assms(1) have first: "getPrimaryKey v kr =
     (case foldl (newerValid v) None ?privs of
        None \<Rightarrow> (None, kr\<lparr>primary_key := []\<rparr>)
      | Some K \<Rightarrow> (Some K, kr\<lparr>primary_key := getFingerprint K\<rparr>))"
    by (intro getPrimaryKey_fallback) simp
  show ?thesis
  proof (cases "foldl (newerValid v) None ?privs")
    case None
    with first assms(1) have "snd (getPrimaryKey v kr) = kr" by simp
    then show ?thesis by simp
  next
    case (Some K)
    let ?kr1 = "kr\<lparr>primary_key := getFingerprint K\<rparr>"
    from first Some have r1: "getPrimaryKey v kr = (Some K, ?kr1)" by simp
    from newerValid_scan_Some [OF Some] have K: "K \<in> set ?privs" "v K" by auto
    with assms(2) have len: "length (getFingerprint K) \<noteq> 16" by simp
    have "map_option getFingerprint (fst (getPrimaryKey v ?kr1)) = Some (getFingerprint K)"
    proof (cases "primary_key ?kr1 \<noteq> [] \<and>
        (\<exists>k. getForId (privateKeys (keystore ?kr1)) (primary_key ?kr1) False = Some k \<and> v k)")
      case True
      then obtain k where k: "getForId (privateKeys (keystore ?kr1)) (primary_key ?kr1) False = Some k"
        "v k" and ne: "primary_key ?kr1 \<noteq> []" by blast
      from getForId_Some [OF k(1)] len have "getFingerprint k = getFingerprint K"
        by (simp add: matchesKey_fingerprint)
      with getPrimaryKey_stored [of ?kr1 k v, OF ne k] show ?thesis by simp
    next
      case False
      from getPrimaryKey_fallback [OF False] Some show ?thesis by simp
    qed
    with r1 show ?thesis by simp
  qed
qed

text \<open>
  Claim C4. \<open>getPrimaryKey\<close> returns the private key the stored fingerprint refers to when
  that key exists and passes validation, and leaves the keyring as it is. Otherwise the
  private keys are scanned: when one of them is valid the result is a valid private key
  that no valid private key is newer than, and its fingerprint is the new attribute; the
  result is \<open>null\<close> only when no private key is valid, and then the attribute is cleared.
  So a key is returned whenever a valid private key exists, and \<open>null\<close> whenever none
  does. With no stored attribute, and fingerprints that are not of the length of a key
  id, a second call returns a key with the fingerprint of the first call's.
\<close>

theorem getPrimaryKey_selection:
  "(\<forall>k. primary_key kr \<noteq> [] \<and>
        getForId (privateKeys (keystore kr)) (primary_key kr) False = Some k \<and>
        validatePrimaryKey k \<longrightarrow>
      getPrimaryKey validatePrimaryKey kr = (Some k, kr)) \<and>
   (\<not> (primary_key kr \<noteq> [] \<and>
        (\<exists>k. getForId (privateKeys (keystore kr)) (primary_key kr) False = Some k \<and>
           validatePrimaryKey k)) \<longrightarrow>
      (case fst (getPrimaryKey validatePrimaryKey kr) of
         Some K \<Rightarrow>
           K \<in> set (privateKeys (keystore kr)) \<and> validatePrimaryKey K \<and>
           (\<forall>k \<in> set (privateKeys (keystore kr)). validatePrimaryKey k \<longrightarrow>
              created (primaryKey k) \<le> created (primaryKey K)) \<and>
           primary_key (snd (getPrimaryKey validatePrimaryKey kr)) = getFingerprint K
       | None \<Rightarrow>
           (\<forall>k \<in> set (privateKeys (keystore kr)). \<not> validatePrimaryKey k) \<and>
           primary_key (snd (getPrimaryKey validatePrimaryKey kr)) = [])) \<and>
   ((\<exists>k \<in> set (privateKeys (keystore kr)). validatePrimaryKey k) \<longrightarrow>
      (\<exists>K \<in> set (privateKeys (keystore kr)). validatePrimaryKey K \<and>
         fst (getPrimaryKey validatePrimaryKey kr) = Some K)) \<and>
   ((\<forall>k \<in> set (privateKeys (keystore kr)). \<not> validatePrimaryKey k) \<longrightarrow>
      fst (getPrimaryKey validatePrimaryKey kr) = None) \<and>
   (primary_key kr = [] \<and>
      (\<forall>k \<in> set (privateKeys (keystore kr)). length (getFingerprint k) \<noteq> 16) \<longrightarrow>
      map_option getFingerprint
        (fst (getPrimaryKey validatePrimaryKey (snd (getPrimaryKey validatePrimaryKey kr)))) =
      map_option getFingerprint (fst (getPrimaryKey validatePrimaryKey kr)))"
proof (intro conjI allI impI)
  fix k
  assume "primary_key kr \<noteq> [] \<and>
        getForId (privateKeys (keystore kr)) (primary_key kr) False = Some k \<and>
        validatePrimaryKey k"
  then show "getPrimaryKey validatePrimaryKey kr = (Some k, kr)"
    by (simp add: getPrimaryKey_stored)
next
  assume a: "\<not> (primary_key kr \<noteq> [] \<and>
        (\<exists>k. getForId (privateKeys (keystore kr)) (primary_key kr) False = Some k \<and>
           validatePrimaryKey k))"
  show "case fst (getPrimaryKey validatePrimaryKey kr) of
         Some K \<Rightarrow>
           K \<in> set (privateKeys (keystore kr)) \<and> validatePrimaryKey K \<and>
           (\<forall>k \<in> set (privateKeys (keystore kr)). validatePrimaryKey k \<longrightarrow>
              created (primaryKey k) \<le> created (primaryKey K)) \<and>
           primary_key (snd (getPrimaryKey validatePrimaryKey kr)) = getFingerprint K
       | None \<Rightarrow>
           (\<forall>k \<in> set (privateKeys (keystore kr)). \<not> validatePrimaryKey k) \<and>
           primary_key (snd (getPrimaryKey validatePrimaryKey kr)) = []"
  proof (cases "foldl (newerValid validatePrimaryKey) None (privateKeys (keystore kr))")
    case None
    then have "\<forall>k \<in> set (privateKeys (keystore kr)). \<not> validatePrimaryKey k"
      by (simp add: newerValid_scan_None)
    with None getPrimaryKey_fallback [OF a] show ?thesis by simp
  next
    case (Some K)
    from newerValid_scan_Some [OF Some] getPrimaryKey_fallback [OF a] Some
    show ?thesis by auto
  qed
next
  assume some: "\<exists>k \<in> set (privateKeys (keystore kr)). validatePrimaryKey k"
  show "\<exists>K \<in> set (privateKeys (keystore kr)). validatePrimaryKey K \<and>
         fst (getPrimaryKey validatePrimaryKey kr) = Some K"
  proof (cases "primary_key kr \<noteq> [] \<and>
        (\<exists>k. getForId (privateKeys (keystore kr)) (primary_key kr) False = Some k \<and>
           validatePrimaryKey k)")
    case True
    then obtain k where ne: "primary_key kr \<noteq> []"
      and k: "getForId (privateKeys (keystore kr)) (primary_key kr) False = Some k"
      and v: "validatePrimaryKey k"
      by blast
    from getPrimaryKey_stored [of kr k validatePrimaryKey, OF ne k v]
    have "fst (getPrimaryKey validatePrimaryKey kr) = Some k" by simp
    moreover from getForId_Some [OF k] have "k \<in> set (privateKeys (keystore kr))" by simp
    ultimately show ?thesis using v by blast
  next
    case False
    from some have "foldl (newerValid validatePrimaryKey) None (privateKeys (keystore kr)) \<noteq> None"
      by (simp add: newerValid_scan_None)
    then obtain K where K: "foldl (newerValid validatePrimaryKey) None (privateKeys (keystore kr)) = Some K"
      by blast
    from newerValid_scan_Some [OF K]
    have "K \<in> set (privateKeys (keystore kr))" "validatePrimaryKey K" by auto
    moreover from getPrimaryKey_fallback [OF False] K
    have "fst (getPrimaryKey validatePrimaryKey kr) = Some K" by simp
    ultimately show ?thesis by blast
  qed
next
  assume none: "\<forall>k \<in> set (privateKeys (keystore kr)). \<not> validatePrimaryKey k"
  then have a: "\<not> (primary_key kr \<noteq> [] \<and>
        (\<exists>k. getForId (privateKeys (keystore kr)) (primary_key kr) False = Some k \<and>
           validatePrimaryKey k))"
    by (auto dest: getForId_Some)
  from none have "foldl (newerValid validatePrimaryKey) None (privateKeys (keystore kr)) = None"
    by (simp add: newerValid_scan_None)
  with getPrimaryKey_fallback [OF a] show "fst (getPrimaryKey validatePrimaryKey kr) = None"
    by simp
next
  assume "primary_key kr = [] \<and>
      (\<forall>k \<in> set (privateKeys (keystore kr)). length (getFingerprint k) \<noteq> 16)"
  then show "map_option getFingerprint
        (fst (getPrimaryKey validatePrimaryKey (snd (getPrimaryKey validatePrimaryKey kr)))) =
      map_option getFingerprint (fst (getPrimaryKey validatePrimaryKey kr))"
    by (intro getPrimaryKey_repeat) simp_all
qed

text \<open>The theorem of C4 on a keyring with two valid private keys.\<close>

theorem getPrimaryKey_selection_witness:
  "getPrimaryKey validateEx (keyringPQ\<lparr>primary_key := getFingerprint keyP\<rparr>) =
     (Some keyP, keyringPQ\<lparr>primary_key := getFingerprint keyP\<rparr>) \<and>
   fst (getPrimaryKey validateEx keyringPQ) = Some keyQ \<and>
   primary_key (snd (getPrimaryKey validateEx keyringPQ)) = getFingerprint keyQ \<and>
   (\<exists>K. keyP \<in> set (privateKeys (keystore keyringPQ)) \<and> validateEx keyP \<and>
      fst (getPrimaryKey validateEx keyringPQ) = Some K \<and> validateEx K \<and>
      created (primaryKey keyP) \<le> created (primaryKey K)) \<and>
   fst (getPrimaryKey (\<lambda>k. False) keyringPQ) = None \<and>
   map_option getFingerprint (fst (getPrimaryKey validateEx (snd (getPrimaryKey validateEx keyringPQ)))) =
     Some (getFingerprint keyQ)"
proof -
  note t = getPrimaryKey_selection [of "keyringPQ\<lparr>primary_key := getFingerprint keyP\<rparr>" validateEx]
  note u = getPrimaryKey_selection [of keyringPQ validateEx]
  note w = getPrimaryKey_selection [of keyringPQ "\<lambda>k. False"]
  have 1: "getPrimaryKey validateEx (keyringPQ\<lparr>primary_key := getFingerprint keyP\<rparr>) =
     (Some keyP, keyringPQ\<lparr>primary_key := getFingerprint keyP\<rparr>)"
    by (rule t [THEN conjunct1, rule_format])
      (simp add: ex_defs ex2_defs getForId_def matchesKey_def keyIdCheck_def)
  have q: "fst (getPrimaryKey validateEx keyringPQ) = Some keyQ"
    "primary_key (snd (getPrimaryKey validateEx keyringPQ)) = getFingerprint keyQ"
    by (simp_all add: ex_defs ex2_defs getPrimaryKey_def getPrimaryKeyFpr_def setPrimaryKey_def
        newerValid_def)
  have p: "keyP \<in> set (privateKeys (keystore keyringPQ))" "validateEx keyP"
    by (simp_all add: ex_defs ex2_defs)
  then have "\<exists>k \<in> set (privateKeys (keystore keyringPQ)). validateEx k" by blast
  from u [THEN conjunct2, THEN conjunct2, THEN conjunct1, rule_format, OF this]
  obtain K where K: "validateEx K" "fst (getPrimaryKey validateEx keyringPQ) = Some K"
    by blast
  have fb: "\<not> (primary_key keyringPQ \<noteq> [] \<and>
        (\<exists>k. getForId (privateKeys (keystore keyringPQ)) (primary_key keyringPQ) False = Some k \<and>
           validateEx k))"
    by (simp add: ex_defs ex2_defs)
  from u [THEN conjunct2, THEN conjunct1, rule_format, OF fb] K(2) p
  have "created (primaryKey keyP) \<le> created (primaryKey K)" by simp
  with p K have 2: "\<exists>K. keyP \<in> set (privateKeys (keystore keyringPQ)) \<and> validateEx keyP \<and>
      fst (getPrimaryKey validateEx keyringPQ) = Some K \<and> validateEx K \<and>
      created (primaryKey keyP) \<le> created (primaryKey K)"
    by blast
  have 3: "fst (getPrimaryKey (\<lambda>k. False) keyringPQ) = None"
    by (rule w [THEN conjunct2, THEN conjunct2, THEN conjunct2, THEN conjunct1, rule_format]) simp
  have "map_option getFingerprint
      (fst (getPrimaryKey validateEx (snd (getPrimaryKey validateEx keyringPQ)))) =
     map_option getFingerprint (fst (getPrimaryKey validateEx keyringPQ))"
    by (rule u [THEN conjunct2, THEN conjunct2, THEN conjunct2, THEN conjunct2, rule_format])
      (simp add: ex_defs ex2_defs)
  with q have 4: "map_option getFingerprint
      (fst (getPrimaryKey validateEx (snd (getPrimaryKey validateEx keyringPQ)))) =
     Some (getFingerprint keyQ)"
    by simp
  from 1 q 2 3 4 show ?thesis by simp
qed

subsection \<open>Import\<close>

lemma sync_add_fields [simp]:
  "keystore (sync_add now kr fp t) = keystore kr"
  "primary_key (sync_add now kr fp t) = primary_key kr"
  "storedPublicKeys (sync_add now kr fp t) = storedPublicKeys kr"
  "storedPrivateKeys (sync_add now kr fp t) = storedPrivateKeys kr"
  "map_of (sync (sync_add now kr fp t)) fp = Some \<lparr>time = now, logtype = t\<rparr>"
  by (simp_all add: sync_add_def AList.update_conv')

lemma importPublicKeyLoop_fields:
  "primary_key (fst (importPublicKeyLoop update now ks kr res)) = primary_key kr \<and>
   storedPublicKeys (fst (importPublicKeyLoop update now ks kr res)) = storedPublicKeys kr \<and>
   storedPrivateKeys (fst (importPublicKeyLoop update now ks kr res)) = storedPrivateKeys kr"
  by (induction update now ks kr res rule: importPublicKeyLoop.induct)
    (auto simp add: Let_def split: option.splits list.splits sum.splits)

lemma importPrivateKeyLoop_fields:
  "primary_key (fst (importPrivateKeyLoop update now ks kr res)) = primary_key kr \<and>
   storedPublicKeys (fst (importPrivateKeyLoop update now ks kr res)) = storedPublicKeys kr \<and>
   storedPrivateKeys (fst (importPrivateKeyLoop update now ks kr res)) = storedPrivateKeys kr"
  by (induction update now ks kr res rule: importPrivateKeyLoop.induct)
    (auto simp add: Let_def split: option.splits list.splits sum.splits)

lemma importPublicKey_fields:
  "primary_key (fst (importPublicKey ra update now kr txt)) = primary_key kr \<and>
   storedPublicKeys (fst (importPublicKey ra update now kr txt)) = storedPublicKeys kr \<and>
   storedPrivateKeys (fst (importPublicKey ra update now kr txt)) = storedPrivateKeys kr"
  unfolding importPublicKey_def Let_def by (rule importPublicKeyLoop_fields)

lemma importPrivateKey_fields:
  "primary_key (fst (importPrivateKey ra update now kr txt)) = primary_key kr \<and>
   storedPublicKeys (fst (importPrivateKey ra update now kr txt)) = storedPublicKeys kr \<and>
   storedPrivateKeys (fst (importPrivateKey ra update now kr txt)) = storedPrivateKeys kr"
  unfolding importPrivateKey_def Let_def by (rule importPrivateKeyLoop_fields)

lemma importOne_fst:
  "fst (importOne ra update now acc c) =
     (case keytype c of
        Public \<Rightarrow> fst (importPublicKey ra update now (fst acc) (armoredText c))
      | Private \<Rightarrow> fst (importPrivateKey ra update now (fst acc) (armoredText c)))"
  by (simp add: importOne_def split: keyType.splits prod.splits sum.splits)

lemma importOne_fields:
  "primary_key (fst (importOne ra update now acc c)) = primary_key (fst acc) \<and>
   storedPublicKeys (fst (importOne ra update now acc c)) = storedPublicKeys (fst acc) \<and>
   storedPrivateKeys (fst (importOne ra update now acc c)) = storedPrivateKeys (fst acc)"
  unfolding importOne_fst
  by (cases "keytype c") (simp_all add: importPublicKey_fields importPrivateKey_fields)

lemma importAll_fields:
  "primary_key (fst (foldl (importOne ra update now) acc cs)) = primary_key (fst acc) \<and>
   storedPublicKeys (fst (foldl (importOne ra update now) acc cs)) = storedPublicKeys (fst acc) \<and>
   storedPrivateKeys (fst (foldl (importOne ra update now) acc cs)) = storedPrivateKeys (fst acc)"
proof (induction cs rule: rev_induct)
  case Nil
  then show ?case by simp
next
  case (snoc c cs)
  with importOne_fields [of ra update now "foldl (importOne ra update now) acc cs" c]
  show ?case by simp
qed

text \<open>
  Claim C6, as amended. When no message of the import loop is a success, \<open>importKeys\<close>
  returns the loop's messages and state: nothing is stored, nothing committed, the
  primary key attribute is as before. When one is a success, the key store is written to
  storage, the pending change log is committed, and if the keyring had no primary key and
  now holds private keys, the first key of its private collection becomes the primary
  key, whether it was imported now or was there before.
\<close>

theorem importKeys_finish:
  "(\<not> list_ex (\<lambda>m. msgtype m = success)
        (snd (foldl (importOne readArmored update now) (kr, []) (sortPublicFirst armoredKeys))) \<longrightarrow>
      importKeys armor readArmored update now kr armoredKeys =
        (snd (foldl (importOne readArmored update now) (kr, []) (sortPublicFirst armoredKeys)),
         fst (foldl (importOne readArmored update now) (kr, []) (sortPublicFirst armoredKeys))) \<and>
      storedPublicKeys (snd (importKeys armor readArmored update now kr armoredKeys)) =
        storedPublicKeys kr \<and>
      storedPrivateKeys (snd (importKeys armor readArmored update now kr armoredKeys)) =
        storedPrivateKeys kr \<and>
      primary_key (snd (importKeys armor readArmored update now kr armoredKeys)) = primary_key kr) \<and>
   (list_ex (\<lambda>m. msgtype m = success)
        (snd (foldl (importOne readArmored update now) (kr, []) (sortPublicFirst armoredKeys))) \<longrightarrow>
      keystore (snd (importKeys armor readArmored update now kr armoredKeys)) =
        keystore (fst (foldl (importOne readArmored update now) (kr, []) (sortPublicFirst armoredKeys))) \<and>
      storedPublicKeys (snd (importKeys armor readArmored update now kr armoredKeys)) =
        map armor (publicKeys (keystore (snd (importKeys armor readArmored update now kr armoredKeys)))) \<and>
      storedPrivateKeys (snd (importKeys armor readArmored update now kr armoredKeys)) =
        map armor (privateKeys (keystore (snd (importKeys armor readArmored update now kr armoredKeys)))) \<and>
      sync (snd (importKeys armor readArmored update now kr armoredKeys)) = [] \<and>
      primary_key (snd (importKeys armor readArmored update now kr armoredKeys)) =
        (if primary_key kr = [] \<and>
            privateKeys (keystore (snd (importKeys armor readArmored update now kr armoredKeys))) \<noteq> []
         then getFingerprint
                (hd (privateKeys (keystore (snd (importKeys armor readArmored update now kr armoredKeys)))))
         else primary_key kr))"
proof -
  let ?imp = "foldl (importOne readArmored update now) (kr, []) (sortPublicFirst armoredKeys)"
  from importAll_fields [of readArmored update now "(kr, [])" "sortPublicFirst armoredKeys"]
  have f: "primary_key (fst ?imp) = primary_key kr"
    "storedPublicKeys (fst ?imp) = storedPublicKeys kr"
    "storedPrivateKeys (fst ?imp) = storedPrivateKeys kr"
    by simp_all
  show ?thesis
  proof (cases "list_ex (\<lambda>m. msgtype m = success) (snd ?imp)")
    case False
    then have "importKeys armor readArmored update now kr armoredKeys = (snd ?imp, fst ?imp)"
      by (simp add: importKeys_def Let_def)
    with False f show ?thesis by simp
  next
    case True
    then show ?thesis
      using f
      by (simp add: importKeys_def Let_def hasPrimaryKey_def setPrimaryKey_def sync_commit_def
          store_def)
  qed
qed

text \<open>The theorem of C6 on a batch that fails to parse and on a batch with a private key.\<close>

theorem importKeys_finish_witness:
  "importKeys armorEx readArmoredEx updateEx 42 keyringP
      [\<lparr>keytype = Public, armoredText = ''not a key''\<rparr>] =
     ([\<lparr>msgtype = error, message = ''key_import_public_read''\<rparr>], keyringP) \<and>
   storedPrivateKeys (snd (importKeys armorEx readArmoredEx updateEx 42 keyringP importQ)) =
     map armorEx (privateKeys (keystore (snd (importKeys armorEx readArmoredEx updateEx 42 keyringP importQ)))) \<and>
   sync (snd (importKeys armorEx readArmoredEx updateEx 42 keyringP importQ)) = []"
proof -
  have l1: "foldl (importOne readArmoredEx updateEx 42) (keyringP, [])
      (sortPublicFirst [\<lparr>keytype = Public, armoredText = ''not a key''\<rparr>]) =
      (keyringP, [\<lparr>msgtype = error, message = ''key_import_public_read''\<rparr>])"
    by (simp add: sortPublicFirst_def importOne_def importPublicKey_def readArmoredEx_def)
  then have n: "\<not> list_ex (\<lambda>m. msgtype m = success)
      (snd (foldl (importOne readArmoredEx updateEx 42) (keyringP, [])
         (sortPublicFirst [\<lparr>keytype = Public, armoredText = ''not a key''\<rparr>])))"
    by simp
  from importKeys_finish [where readArmored = readArmoredEx and update = updateEx and now = 42
      and kr = keyringP and armor = armorEx
      and armoredKeys = "[\<lparr>keytype = Public, armoredText = ''not a key''\<rparr>]",
      THEN conjunct1, rule_format, OF n] l1
  have 1: "importKeys armorEx readArmoredEx updateEx 42 keyringP
      [\<lparr>keytype = Public, armoredText = ''not a key''\<rparr>] =
     ([\<lparr>msgtype = error, message = ''key_import_public_read''\<rparr>], keyringP)"
    by simp
  have y: "list_ex (\<lambda>m. msgtype m = success)
      (snd (foldl (importOne readArmoredEx updateEx 42) (keyringP, []) (sortPublicFirst importQ)))"
    by (simp add: importQ_def run_defs readArmoredEx_def keyringP_def emptyKeyring_def
        keyA_def keyP_def keyQ_def getFingerprint_def)
  from importKeys_finish [where readArmored = readArmoredEx and update = updateEx and now = 42
      and kr = keyringP and armor = armorEx and armoredKeys = importQ,
      THEN conjunct2, rule_format, OF y] 1
  show ?thesis by simp
qed

text \<open>
  Claim C6 as stated fails: the keyring holds a private key and has no primary key; after
  the import of another private key the primary key is the one that was there before, not
  the newly imported one.
\<close>

theorem importKeys_primary_counterexample:
  "keyP \<in> set (privateKeys (keystore keyringP)) \<and> \<not> hasPrimaryKey keyringP \<and>
   privateKeys (keystore (snd (importKeys armorEx readArmoredEx updateEx 42 keyringP importQ))) =
     [keyP, keyQ] \<and>
   primary_key (snd (importKeys armorEx readArmoredEx updateEx 42 keyringP importQ)) =
     getFingerprint keyP \<and>
   getFingerprint keyP \<noteq> getFingerprint keyQ"
  by (simp add: importQ_def run_defs readArmoredEx_def keyringP_def emptyKeyring_def
      keyA_def keyP_def keyQ_def getFingerprint_def)


lemma getKeysForId_Some:
  "getKeysForId st ident deep = Some ks \<longleftrightarrow>
     ks = filter (matchesKey ident deep) (publicKeys st @ privateKeys st) \<and> ks \<noteq> []"
  by (auto simp add: getKeysForId_def Let_def)

lemma getKeysForId_hd:
  assumes "getKeysForId st ident deep = Some (k # ks)"
  shows "k \<in> set (publicKeys st @ privateKeys st) \<and> matchesKey ident deep k"
proof -
  from assms have "k # ks = filter (matchesKey ident deep) (publicKeys st @ privateKeys st)"
    by (simp add: getKeysForId_Some)
  then have "k \<in> set (filter (matchesKey ident deep) (publicKeys st @ privateKeys st))"
    by (metis list.set_intros(1))
  then show ?thesis by auto
qed

lemma replaceFirst_fingerprints:
  "\<forall>k \<in> set ks. P k \<longrightarrow> getFingerprint k = getFingerprint k' \<Longrightarrow>
   map getFingerprint (replaceFirst P k' ks) = map getFingerprint ks"
  by (induction ks) auto

lemma replaceKey_fingerprints:
  assumes "length ident \<noteq> 16" and "getFingerprint k' = ident"
  shows "map getFingerprint (publicKeys (replaceKey st ident k')) = map getFingerprint (publicKeys st) \<and>
     map getFingerprint (privateKeys (replaceKey st ident k')) = map getFingerprint (privateKeys st)"
  using assms
  by (simp add: replaceKey_def replaceFirst_fingerprints matchesKey_fingerprint)

lemma replaceKey_fingerprintsOf:
  assumes "length ident \<noteq> 16" and "getFingerprint k' = ident"
  shows "fingerprintsOf (replaceKey st ident k') = fingerprintsOf st"
proof -
  have "fingerprintsOf s = set (map getFingerprint (publicKeys s)) \<union> set (map getFingerprint (privateKeys s))"
    for s by (auto simp add: fingerprintsOf_def)
  then show ?thesis
    by (simp only: replaceKey_fingerprints [OF assms, of st])
qed

lemma importPublicKey_single:
  assumes ra: "readArmored txt = ([K], [])"
    and chk: "checkKeyId K (keystore kr) = None"
    and len: "length (getFingerprint K) \<noteq> 16"
    and upd: "\<forall>k. getFingerprint k = getFingerprint K \<longrightarrow>
        (\<exists>k'. update k K = Inr k' \<and> primaryKey k' = primaryKey k)"
  shows "\<exists>kr' m. importPublicKey readArmored update now kr txt =
        (kr', Inr [\<lparr>msgtype = success, message = m\<rparr>]) \<and>
      getFingerprint K \<in> fingerprintsOf (keystore kr') \<and>
      fingerprintsOf (keystore kr) \<subseteq> fingerprintsOf (keystore kr')"
proof (cases "getKeysForId (keystore kr) (getFingerprint K) False")
  case None
  with ra chk show ?thesis
    by (auto simp add: importPublicKey_def Let_def fingerprintsOf_def)
next
  case (Some found)
  then obtain k rest where found: "found = k # rest"
    by (cases found) (auto simp add: getKeysForId_Some)
  from getKeysForId_hd [OF Some [unfolded found]] len
  have fk: "getFingerprint k = getFingerprint K"
    by (simp add: matchesKey_fingerprint)
  with upd obtain k' where k': "update k K = Inr k'" "primaryKey k' = primaryKey k" by blast
  then have fk': "getFingerprint k' = getFingerprint K"
    using fk by (simp add: getFingerprint_def)
  from getKeysForId_hd [OF Some [unfolded found]] fk
  have "getFingerprint K \<in> fingerprintsOf (keystore kr)"
    unfolding fingerprintsOf_def by (metis imageI)
  with ra chk Some found k' replaceKey_fingerprintsOf [OF len fk', of "keystore kr"]
  show ?thesis
    by (simp add: importPublicKey_def Let_def)
qed

lemma importPublicKey_unreadable:
  "fst (readArmored txt) = [] \<Longrightarrow>
   importPublicKey readArmored update now kr txt =
     (kr, Inr (map (\<lambda>err. \<lparr>msgtype = error, message = ''key_import_public_read''\<rparr>)
               (snd (readArmored txt))))"
  by (simp add: importPublicKey_def Let_def)

lemma importPrivateKey_unreadable:
  "fst (readArmored txt) = [] \<Longrightarrow>
   importPrivateKey readArmored update now kr txt =
     (kr, Inr (map (\<lambda>err. \<lparr>msgtype = error, message = ''key_import_private_read''\<rparr>)
               (snd (readArmored txt))))"
  by (simp add: importPrivateKey_def Let_def)

lemma importOne_grows: "\<exists>msgs. snd (importOne readArmored update now acc c) = snd acc @ msgs"
  by (auto simp add: importOne_def split: keyType.splits prod.splits sum.splits)

lemma importOne_unreadable:
  assumes "fst (readArmored (armoredText c)) = []"
  shows "importOne readArmored update now acc c =
     (fst acc,
      snd acc @ map (\<lambda>err. \<lparr>msgtype = error,
          message = (case keytype c of Public \<Rightarrow> ''key_import_public_read''
                     | Private \<Rightarrow> ''key_import_private_read'')\<rparr>)
        (snd (readArmored (armoredText c))))"
  using assms
  by (cases "keytype c")
    (simp_all add: importOne_def importPublicKey_unreadable importPrivateKey_unreadable)

lemma importOne_messages:
  "importOne ra update now (kr, msgs) c =
     (fst (importOne ra update now (kr, []) c), msgs @ snd (importOne ra update now (kr, []) c))"
  by (simp add: importOne_def split: keyType.splits prod.splits sum.splits)

lemma importAll_messages:
  "foldl (importOne ra update now) (kr, msgs) cs =
     (fst (foldl (importOne ra update now) (kr, []) cs),
      msgs @ snd (foldl (importOne ra update now) (kr, []) cs))"
proof (induction cs rule: rev_induct)
  case Nil
  then show ?case by simp
next
  case (snoc c cs)
  let ?s = "foldl (importOne ra update now) (kr, []) cs"
  have "foldl (importOne ra update now) (kr, msgs) (cs @ [c]) =
      importOne ra update now (fst ?s, msgs @ snd ?s) c"
    using snoc by simp
  also have "\<dots> = (fst (importOne ra update now (fst ?s, []) c),
      (msgs @ snd ?s) @ snd (importOne ra update now (fst ?s, []) c))"
    by (rule importOne_messages)
  finally have l: "foldl (importOne ra update now) (kr, msgs) (cs @ [c]) =
      (fst (importOne ra update now (fst ?s, []) c),
       (msgs @ snd ?s) @ snd (importOne ra update now (fst ?s, []) c))" .
  have "foldl (importOne ra update now) (kr, []) (cs @ [c]) =
      importOne ra update now (fst ?s, snd ?s) c"
    by simp
  also have "\<dots> = (fst (importOne ra update now (fst ?s, []) c),
      snd ?s @ snd (importOne ra update now (fst ?s, []) c))"
    by (rule importOne_messages)
  finally have r: "foldl (importOne ra update now) (kr, []) (cs @ [c]) =
      (fst (importOne ra update now (fst ?s, []) c),
       snd ?s @ snd (importOne ra update now (fst ?s, []) c))" .
  show ?case unfolding l r by simp
qed

lemma sortPublicFirst_insert:
  "\<exists>xs ys. sortPublicFirst (cs1 @ c # cs2) = xs @ c # ys \<and> sortPublicFirst (cs1 @ cs2) = xs @ ys"
proof (cases "keytype c")
  case Public
  then have "sortPublicFirst (cs1 @ c # cs2) =
      filter (\<lambda>k. keytype k = Public) cs1 @ c #
        (filter (\<lambda>k. keytype k = Public) cs2 @ filter (\<lambda>k. keytype k = Private) (cs1 @ cs2))"
    and "sortPublicFirst (cs1 @ cs2) =
      filter (\<lambda>k. keytype k = Public) cs1 @
        (filter (\<lambda>k. keytype k = Public) cs2 @ filter (\<lambda>k. keytype k = Private) (cs1 @ cs2))"
    by (simp_all add: sortPublicFirst_def)
  then show ?thesis by blast
next
  case Private
  then have "sortPublicFirst (cs1 @ c # cs2) =
      (filter (\<lambda>k. keytype k = Public) (cs1 @ cs2) @ filter (\<lambda>k. keytype k = Private) cs1) @ c #
        filter (\<lambda>k. keytype k = Private) cs2"
    and "sortPublicFirst (cs1 @ cs2) =
      (filter (\<lambda>k. keytype k = Public) (cs1 @ cs2) @ filter (\<lambda>k. keytype k = Private) cs1) @
        filter (\<lambda>k. keytype k = Private) cs2"
    by (simp_all add: sortPublicFirst_def)
  then show ?thesis by blast
qed

lemma importAll_skip:
  assumes "\<And>acc. importOne readArmored update now acc c = (fst acc, snd acc @ es)"
  shows "\<exists>m1 m2.
     foldl (importOne readArmored update now) (kr, []) (xs @ ys) =
       (fst (foldl (importOne readArmored update now) (kr, []) (xs @ ys)), m1 @ m2) \<and>
     foldl (importOne readArmored update now) (kr, []) (xs @ c # ys) =
       (fst (foldl (importOne readArmored update now) (kr, []) (xs @ ys)), m1 @ es @ m2)"
proof -
  let ?f = "importOne readArmored update now"
  let ?s = "foldl ?f (kr, []) xs"
  let ?t = "foldl ?f (fst ?s, []) ys"
  have a: "foldl ?f (kr, []) (xs @ ys) = (fst ?t, snd ?s @ snd ?t)"
    using importAll_messages [of readArmored update now "fst ?s" "snd ?s" ys] by simp
  have "?f ?s c = (fst ?s, snd ?s @ es)"
    by (rule assms)
  then have "foldl ?f (kr, []) (xs @ c # ys) = foldl ?f (fst ?s, snd ?s @ es) ys"
    by simp
  also have "\<dots> = (fst ?t, (snd ?s @ es) @ snd ?t)"
    by (rule importAll_messages)
  finally have b: "foldl ?f (kr, []) (xs @ c # ys) = (fst ?t, snd ?s @ es @ snd ?t)"
    by simp
  from a b show ?thesis by (intro exI [of _ "snd ?s"] exI [of _ "snd ?t"]) simp
qed

lemma importKeys_result:
  "fst (importKeys armor ra update now kr cs) =
     snd (foldl (importOne ra update now) (kr, []) (sortPublicFirst cs))"
  by (simp add: importKeys_def Let_def)

lemma importKeys_same_state:
  assumes "fst (foldl (importOne ra update now) (kr, []) (sortPublicFirst cs)) =
      fst (foldl (importOne ra update now) (kr, []) (sortPublicFirst cs'))"
    and "list_ex (\<lambda>m. msgtype m = success)
        (snd (foldl (importOne ra update now) (kr, []) (sortPublicFirst cs))) =
      list_ex (\<lambda>m. msgtype m = success)
        (snd (foldl (importOne ra update now) (kr, []) (sortPublicFirst cs')))"
  shows "snd (importKeys armor ra update now kr cs) = snd (importKeys armor ra update now kr cs')"
  using assms by (simp add: importKeys_def Let_def)

lemma importKeys_unreadable:
  assumes "fst (readArmored (armoredText c)) = []"
  shows "snd (importKeys armor readArmored update now kr (cs1 @ c # cs2)) =
       snd (importKeys armor readArmored update now kr (cs1 @ cs2)) \<and>
     (\<exists>m1 m2.
        fst (importKeys armor readArmored update now kr (cs1 @ cs2)) = m1 @ m2 \<and>
        fst (importKeys armor readArmored update now kr (cs1 @ c # cs2)) =
          m1 @ map (\<lambda>err. \<lparr>msgtype = error,
              message = (case keytype c of Public \<Rightarrow> ''key_import_public_read''
                         | Private \<Rightarrow> ''key_import_private_read'')\<rparr>)
            (snd (readArmored (armoredText c))) @ m2)"
proof -
  let ?f = "importOne readArmored update now"
  let ?es = "map (\<lambda>err. \<lparr>msgtype = error,
              message = (case keytype c of Public \<Rightarrow> ''key_import_public_read''
                         | Private \<Rightarrow> ''key_import_private_read'')\<rparr>)
            (snd (readArmored (armoredText c)))"
  from sortPublicFirst_insert [of cs1 c cs2] obtain xs ys
    where with_c: "sortPublicFirst (cs1 @ c # cs2) = xs @ c # ys"
      and without: "sortPublicFirst (cs1 @ cs2) = xs @ ys"
    by blast
  have skip: "?f acc c = (fst acc, snd acc @ ?es)" for acc
    using assms by (rule importOne_unreadable)
  from importAll_skip [where readArmored = readArmored and c = c and update = update
      and now = now and kr = kr and xs = xs and ys = ys and es = ?es, OF skip] obtain m1 m2
    where a: "foldl ?f (kr, []) (xs @ ys) = (fst (foldl ?f (kr, []) (xs @ ys)), m1 @ m2)"
      and b: "foldl ?f (kr, []) (xs @ c # ys) =
        (fst (foldl ?f (kr, []) (xs @ ys)), m1 @ ?es @ m2)"
    by blast
  from a have sa: "snd (foldl ?f (kr, []) (xs @ ys)) = m1 @ m2" by (metis snd_conv)
  from b have sb: "snd (foldl ?f (kr, []) (xs @ c # ys)) = m1 @ ?es @ m2"
    by (metis snd_conv)
  from b have fb: "fst (foldl ?f (kr, []) (xs @ c # ys)) = fst (foldl ?f (kr, []) (xs @ ys))"
    by (metis fst_conv)
  have "\<not> list_ex (\<lambda>m. msgtype m = success) ?es"
    by (simp add: list_ex_iff)
  then have sx: "list_ex (\<lambda>m. msgtype m = success) (m1 @ ?es @ m2) =
      list_ex (\<lambda>m. msgtype m = success) (m1 @ m2)"
    by (auto simp add: list_ex_iff)
  have ra: "fst (importKeys armor readArmored update now kr (cs1 @ cs2)) = m1 @ m2"
    unfolding importKeys_result without by (rule sa)
  have rb: "fst (importKeys armor readArmored update now kr (cs1 @ c # cs2)) = m1 @ ?es @ m2"
    unfolding importKeys_result with_c by (rule sb)
  have st: "snd (importKeys armor readArmored update now kr (cs1 @ c # cs2)) =
       snd (importKeys armor readArmored update now kr (cs1 @ cs2))"
    by (rule importKeys_same_state) (simp_all only: with_c without fb sa sb sx)
  from st ra rb show ?thesis by blast
qed

lemma importKeys_first:
  assumes "keytype c = Public \<or> (\<forall>c' \<in> set cs. keytype c' = Private)"
  shows "fst (importKeys armor ra update now kr (c # cs)) =
     snd (importOne ra update now (kr, []) c) @
     fst (importKeys armor ra update now (fst (importOne ra update now (kr, []) c)) cs)"
proof -
  let ?f = "importOne ra update now"
  have sorted: "sortPublicFirst (c # cs) = c # sortPublicFirst cs"
  proof (cases "keytype c")
    case Public
    then show ?thesis by (simp add: sortPublicFirst_def)
  next
    case Private
    with assms have all: "\<forall>c' \<in> set cs. keytype c' = Private" by simp
    then have "filter (\<lambda>k. keytype k = Public) cs = []" "filter (\<lambda>k. keytype k = Private) cs = cs"
      by (simp_all add: filter_empty_conv filter_id_conv)
    with Private show ?thesis by (simp add: sortPublicFirst_def)
  qed
  have "foldl ?f (kr, []) (c # sortPublicFirst cs) =
      foldl ?f (fst (?f (kr, []) c), snd (?f (kr, []) c)) (sortPublicFirst cs)"
    by simp
  also have "\<dots> = (fst (foldl ?f (fst (?f (kr, []) c), []) (sortPublicFirst cs)),
      snd (?f (kr, []) c) @ snd (foldl ?f (fst (?f (kr, []) c), []) (sortPublicFirst cs)))"
    by (rule importAll_messages)
  finally show ?thesis
    unfolding importKeys_result sorted by simp
qed

lemma importKeys_scenario:
  assumes "readArmored a = ([A], [])" and "readArmored m = ([], [e])"
    and "readArmored b = ([B], [])"
    and "checkKeyId A (keystore kr) = None"
    and "checkKeyId B (keystore (fst (importPublicKey readArmored update now kr a))) = None"
    and "length (getFingerprint A) \<noteq> 16" and "length (getFingerprint B) \<noteq> 16"
    and "\<forall>k k'. getFingerprint k = getFingerprint k' \<longrightarrow>
        (\<exists>k''. update k k' = Inr k'' \<and> primaryKey k'' = primaryKey k)"
  shows
    "map msgtype (fst (importKeys armor readArmored update now kr
        [\<lparr>keytype = Public, armoredText = a\<rparr>, \<lparr>keytype = Public, armoredText = m\<rparr>,
         \<lparr>keytype = Public, armoredText = b\<rparr>])) = [success, error, success] \<and>
     getFingerprint A \<in> fingerprintsOf (keystore (snd (importKeys armor readArmored update now kr
        [\<lparr>keytype = Public, armoredText = a\<rparr>, \<lparr>keytype = Public, armoredText = m\<rparr>,
         \<lparr>keytype = Public, armoredText = b\<rparr>]))) \<and>
     getFingerprint B \<in> fingerprintsOf (keystore (snd (importKeys armor readArmored update now kr
        [\<lparr>keytype = Public, armoredText = a\<rparr>, \<lparr>keytype = Public, armoredText = m\<rparr>,
         \<lparr>keytype = Public, armoredText = b\<rparr>])))"
proof -
  let ?batch = "[\<lparr>keytype = Public, armoredText = a\<rparr>, \<lparr>keytype = Public, armoredText = m\<rparr>,
         \<lparr>keytype = Public, armoredText = b\<rparr>]"
  from importPublicKey_single [of readArmored a A kr update now] assms(1,4,6,8)
  obtain kr1 m1 where s1: "importPublicKey readArmored update now kr a =
        (kr1, Inr [\<lparr>msgtype = success, message = m1\<rparr>])"
    and A1: "getFingerprint A \<in> fingerprintsOf (keystore kr1)"
    by blast
  from assms(5) s1 have chkB: "checkKeyId B (keystore kr1) = None" by simp
  from importPublicKey_single [of readArmored b B kr1 update now] assms(3,7,8) chkB
  obtain kr2 m2 where s2: "importPublicKey readArmored update now kr1 b =
        (kr2, Inr [\<lparr>msgtype = success, message = m2\<rparr>])"
    and B2: "getFingerprint B \<in> fingerprintsOf (keystore kr2)"
    and mono: "fingerprintsOf (keystore kr1) \<subseteq> fingerprintsOf (keystore kr2)"
    by blast
  have sm: "importPublicKey readArmored update now kr1 m =
      (kr1, Inr [\<lparr>msgtype = error, message = ''key_import_public_read''\<rparr>])"
    using assms(2) by (simp add: importPublicKey_unreadable)
  have loop: "foldl (importOne readArmored update now) (kr, []) (sortPublicFirst ?batch) =
      (kr2, [\<lparr>msgtype = success, message = m1\<rparr>,
             \<lparr>msgtype = error, message = ''key_import_public_read''\<rparr>,
             \<lparr>msgtype = success, message = m2\<rparr>])"
    using s1 sm s2 by (simp add: sortPublicFirst_def importOne_def)
  then have res: "fst (importKeys armor readArmored update now kr ?batch) =
      [\<lparr>msgtype = success, message = m1\<rparr>,
       \<lparr>msgtype = error, message = ''key_import_public_read''\<rparr>,
       \<lparr>msgtype = success, message = m2\<rparr>]"
    and ks: "keystore (snd (importKeys armor readArmored update now kr ?batch)) = keystore kr2"
    by (simp_all add: importKeys_def Let_def hasPrimaryKey_def setPrimaryKey_def sync_commit_def
        store_def)
  from res have r: "map msgtype (fst (importKeys armor readArmored update now kr ?batch)) =
      [success, error, success]"
    by simp
  from A1 mono have A2: "getFingerprint A \<in> fingerprintsOf (keystore kr2)" by blast
  show ?thesis
    using r A2 B2 unfolding ks by simp
qed

text \<open>
  Claim C5. For every batch and every place in it: a candidate whose text cannot be read
  leaves \<open>importKeys\<close> with the keyring that the batch without the candidate gives, and
  with the messages of that batch, among which the candidate's error messages stand at
  its place. So the candidates before it and after it are processed as if it were not
  there: the batch does not stop at the bad entry. The result of \<open>importKeys\<close> is what the
  loop over the sorted batch has collected, each candidate being handled from the state
  the candidates before it left, and adding to the messages whatever it does: the
  messages of a batch are those of its first candidate, whether it was imported, could
  not be read or was rejected with an exception, followed by those of the rest of the
  batch imported into the keyring the first candidate left (for a first candidate that
  the sort leaves in front). For the
  batch of a public key A, a text that is not a key, and a public key B, where A and B
  pass the key id check, the result is a success, an error and a success, and the
  fingerprints of A and B are in the store afterwards.
\<close>

theorem importKeys_batch:
  "(\<forall>cs1 c cs2. fst (readArmored (armoredText c)) = [] \<longrightarrow>
      snd (importKeys armor readArmored update now kr (cs1 @ c # cs2)) =
        snd (importKeys armor readArmored update now kr (cs1 @ cs2)) \<and>
      (\<exists>m1 m2.
         fst (importKeys armor readArmored update now kr (cs1 @ cs2)) = m1 @ m2 \<and>
         fst (importKeys armor readArmored update now kr (cs1 @ c # cs2)) =
           m1 @ map (\<lambda>err. \<lparr>msgtype = error,
               message = (case keytype c of Public \<Rightarrow> ''key_import_public_read''
                          | Private \<Rightarrow> ''key_import_private_read'')\<rparr>)
             (snd (readArmored (armoredText c))) @ m2)) \<and>
   (\<forall>cs. fst (importKeys armor readArmored update now kr cs) =
      snd (foldl (importOne readArmored update now) (kr, []) (sortPublicFirst cs))) \<and>
   (\<forall>acc c. fst (readArmored (armoredText c)) = [] \<longrightarrow>
      importOne readArmored update now acc c =
        (fst acc,
         snd acc @ map (\<lambda>err. \<lparr>msgtype = error,
             message = (case keytype c of Public \<Rightarrow> ''key_import_public_read''
                        | Private \<Rightarrow> ''key_import_private_read'')\<rparr>)
           (snd (readArmored (armoredText c))))) \<and>
   (\<forall>acc c. \<exists>msgs. snd (importOne readArmored update now acc c) = snd acc @ msgs) \<and>
   (\<forall>a m b A B e.
      readArmored a = ([A], []) \<and> readArmored m = ([], [e]) \<and> readArmored b = ([B], []) \<and>
      checkKeyId A (keystore kr) = None \<and>
      checkKeyId B (keystore (fst (importPublicKey readArmored update now kr a))) = None \<and>
      length (getFingerprint A) \<noteq> 16 \<and> length (getFingerprint B) \<noteq> 16 \<and>
      (\<forall>k k'. getFingerprint k = getFingerprint k' \<longrightarrow>
         (\<exists>k''. update k k' = Inr k'' \<and> primaryKey k'' = primaryKey k)) \<longrightarrow>
      map msgtype (fst (importKeys armor readArmored update now kr
        [\<lparr>keytype = Public, armoredText = a\<rparr>, \<lparr>keytype = Public, armoredText = m\<rparr>,
         \<lparr>keytype = Public, armoredText = b\<rparr>])) = [success, error, success] \<and>
      getFingerprint A \<in> fingerprintsOf (keystore (snd (importKeys armor readArmored update now kr
        [\<lparr>keytype = Public, armoredText = a\<rparr>, \<lparr>keytype = Public, armoredText = m\<rparr>,
         \<lparr>keytype = Public, armoredText = b\<rparr>]))) \<and>
      getFingerprint B \<in> fingerprintsOf (keystore (snd (importKeys armor readArmored update now kr
        [\<lparr>keytype = Public, armoredText = a\<rparr>, \<lparr>keytype = Public, armoredText = m\<rparr>,
         \<lparr>keytype = Public, armoredText = b\<rparr>])))) \<and>
   (\<forall>c cs. keytype c = Public \<or> (\<forall>c' \<in> set cs. keytype c' = Private) \<longrightarrow>
      fst (importKeys armor readArmored update now kr (c # cs)) =
        snd (importOne readArmored update now (kr, []) c) @
        fst (importKeys armor readArmored update now (fst (importOne readArmored update now (kr, []) c)) cs))"
proof (intro conjI allI impI)
  fix c :: armoredKey and cs :: "armoredKey list"
  assume "keytype c = Public \<or> (\<forall>c' \<in> set cs. keytype c' = Private)"
  then show "fst (importKeys armor readArmored update now kr (c # cs)) =
        snd (importOne readArmored update now (kr, []) c) @
        fst (importKeys armor readArmored update now (fst (importOne readArmored update now (kr, []) c)) cs)"
    by (rule importKeys_first)
next
  fix cs1 cs2 :: "armoredKey list" and c :: armoredKey
  assume u: "fst (readArmored (armoredText c)) = []"
  from importKeys_unreadable [where readArmored = readArmored and c = c and armor = armor
      and update = update and now = now and kr = kr and ?cs1.0 = cs1 and ?cs2.0 = cs2, OF u]
  show "snd (importKeys armor readArmored update now kr (cs1 @ c # cs2)) =
        snd (importKeys armor readArmored update now kr (cs1 @ cs2))"
    and "\<exists>m1 m2.
         fst (importKeys armor readArmored update now kr (cs1 @ cs2)) = m1 @ m2 \<and>
         fst (importKeys armor readArmored update now kr (cs1 @ c # cs2)) =
           m1 @ map (\<lambda>err. \<lparr>msgtype = error,
               message = (case keytype c of Public \<Rightarrow> ''key_import_public_read''
                          | Private \<Rightarrow> ''key_import_private_read'')\<rparr>)
             (snd (readArmored (armoredText c))) @ m2"
    by simp_all
next
  fix cs
  show "fst (importKeys armor readArmored update now kr cs) =
      snd (foldl (importOne readArmored update now) (kr, []) (sortPublicFirst cs))"
    by (rule importKeys_result)
next
  fix acc :: "keyring \<times> resultMsg list" and c :: armoredKey
  assume "fst (readArmored (armoredText c)) = []"
  then show "importOne readArmored update now acc c =
        (fst acc,
         snd acc @ map (\<lambda>err. \<lparr>msgtype = error,
             message = (case keytype c of Public \<Rightarrow> ''key_import_public_read''
                        | Private \<Rightarrow> ''key_import_private_read'')\<rparr>)
           (snd (readArmored (armoredText c))))"
    by (rule importOne_unreadable)
next
  fix acc c
  show "\<exists>msgs. snd (importOne readArmored update now acc c) = snd acc @ msgs"
    by (rule importOne_grows)
next
  fix a m b A B e
  assume h: "readArmored a = ([A], []) \<and> readArmored m = ([], [e]) \<and> readArmored b = ([B], []) \<and>
      checkKeyId A (keystore kr) = None \<and>
      checkKeyId B (keystore (fst (importPublicKey readArmored update now kr a))) = None \<and>
      length (getFingerprint A) \<noteq> 16 \<and> length (getFingerprint B) \<noteq> 16 \<and>
      (\<forall>k k'. getFingerprint k = getFingerprint k' \<longrightarrow>
         (\<exists>k''. update k k' = Inr k'' \<and> primaryKey k'' = primaryKey k))"
  then have 1: "readArmored a = ([A], [])" and 2: "readArmored m = ([], [e])"
    and 3: "readArmored b = ([B], [])" and 4: "checkKeyId A (keystore kr) = None"
    and 5: "checkKeyId B (keystore (fst (importPublicKey readArmored update now kr a))) = None"
    and 6: "length (getFingerprint A) \<noteq> 16" and 7: "length (getFingerprint B) \<noteq> 16"
    and 8: "\<forall>k k'. getFingerprint k = getFingerprint k' \<longrightarrow>
         (\<exists>k''. update k k' = Inr k'' \<and> primaryKey k'' = primaryKey k)"
    by blast+
  note s = importKeys_scenario [where readArmored = readArmored and update = update and now = now
      and kr = kr and armor = armor, OF 1 2 3 4 5 6 7 8]
  from s show "map msgtype (fst (importKeys armor readArmored update now kr
        [\<lparr>keytype = Public, armoredText = a\<rparr>, \<lparr>keytype = Public, armoredText = m\<rparr>,
         \<lparr>keytype = Public, armoredText = b\<rparr>])) = [success, error, success]"
    by (rule conjunct1)
  from s show "getFingerprint A \<in> fingerprintsOf (keystore (snd (importKeys armor readArmored update now kr
        [\<lparr>keytype = Public, armoredText = a\<rparr>, \<lparr>keytype = Public, armoredText = m\<rparr>,
         \<lparr>keytype = Public, armoredText = b\<rparr>])))"
    by (rule conjunct2 [THEN conjunct1])
  from s show "getFingerprint B \<in> fingerprintsOf (keystore (snd (importKeys armor readArmored update now kr
        [\<lparr>keytype = Public, armoredText = a\<rparr>, \<lparr>keytype = Public, armoredText = m\<rparr>,
         \<lparr>keytype = Public, armoredText = b\<rparr>])))"
    by (rule conjunct2 [THEN conjunct2])
qed

text \<open>
  The theorem of C5 on the batch of the scenario, imported into an empty keyring, and on
  a batch that begins with the text that is not a key.
\<close>

theorem importKeys_batch_witness:
  "map msgtype (fst (importKeys armorEx readArmoredEx updateEx 42 emptyKeyring batchEx)) =
     [success, error, success] \<and>
   getFingerprint keyA \<in>
     fingerprintsOf (keystore (snd (importKeys armorEx readArmoredEx updateEx 42 emptyKeyring batchEx))) \<and>
   getFingerprint keyB \<in>
     fingerprintsOf (keystore (snd (importKeys armorEx readArmoredEx updateEx 42 emptyKeyring batchEx))) \<and>
   fst (importKeys armorEx readArmoredEx updateEx 42 emptyKeyring
     [\<lparr>keytype = Public, armoredText = ''not a key''\<rparr>,
      \<lparr>keytype = Public, armoredText = ''armored A''\<rparr>]) =
     [\<lparr>msgtype = error, message = ''key_import_public_read''\<rparr>,
      \<lparr>msgtype = success, message = ''key_import_public_success''\<rparr>] \<and>
   publicKeys (keystore (snd (importKeys armorEx readArmoredEx updateEx 42 emptyKeyring
     [\<lparr>keytype = Public, armoredText = ''not a key''\<rparr>,
      \<lparr>keytype = Public, armoredText = ''armored A''\<rparr>]))) = [keyA]"
proof -
  have a: "readArmoredEx ''armored A'' = ([keyA], [])"
    and m: "readArmoredEx ''not a key'' = ([], [''Unknown ASCII armor type''])"
    and b: "readArmoredEx ''armored B'' = ([keyB], [])"
    by (simp_all add: readArmoredEx_def)
  have ca: "checkKeyId keyA (keystore emptyKeyring) = None"
    by (simp add: emptyKeyring_def checkKeyId_def getKeysForId_def keyA_def)
  have cb: "checkKeyId keyB (keystore (fst (importPublicKey readArmoredEx updateEx 42 emptyKeyring
      ''armored A''))) = None"
    by (simp add: a emptyKeyring_def run_defs keyA_def keyB_def getFingerprint_def)
  have la: "length (getFingerprint keyA) \<noteq> 16" and lb: "length (getFingerprint keyB) \<noteq> 16"
    by (simp_all add: keyA_def keyB_def getFingerprint_def)
  have u: "\<forall>k k'. getFingerprint k = getFingerprint k' \<longrightarrow>
      (\<exists>k''. updateEx k k' = Inr k'' \<and> primaryKey k'' = primaryKey k)"
    by (simp add: updateEx_def)
  note t = importKeys_batch [where readArmored = readArmoredEx and update = updateEx and now = 42
      and kr = emptyKeyring and armor = armorEx]
  from a m b ca cb la lb u
  have scenario: "map msgtype (fst (importKeys armorEx readArmoredEx updateEx 42 emptyKeyring
        [\<lparr>keytype = Public, armoredText = ''armored A''\<rparr>,
         \<lparr>keytype = Public, armoredText = ''not a key''\<rparr>,
         \<lparr>keytype = Public, armoredText = ''armored B''\<rparr>])) = [success, error, success] \<and>
      getFingerprint keyA \<in> fingerprintsOf (keystore (snd (importKeys armorEx readArmoredEx updateEx 42
        emptyKeyring
        [\<lparr>keytype = Public, armoredText = ''armored A''\<rparr>,
         \<lparr>keytype = Public, armoredText = ''not a key''\<rparr>,
         \<lparr>keytype = Public, armoredText = ''armored B''\<rparr>]))) \<and>
      getFingerprint keyB \<in> fingerprintsOf (keystore (snd (importKeys armorEx readArmoredEx updateEx 42
        emptyKeyring
        [\<lparr>keytype = Public, armoredText = ''armored A''\<rparr>,
         \<lparr>keytype = Public, armoredText = ''not a key''\<rparr>,
         \<lparr>keytype = Public, armoredText = ''armored B''\<rparr>])))"
    by (intro t [THEN conjunct2, THEN conjunct2, THEN conjunct2, THEN conjunct2, THEN conjunct1,
          rule_format,
          of "''armored A''" keyA "''not a key''" "''Unknown ASCII armor type''" "''armored B''" keyB])
      simp
  let ?bad = "\<lparr>keytype = Public, armoredText = ''not a key''\<rparr>"
  let ?A = "\<lparr>keytype = Public, armoredText = ''armored A''\<rparr>"
  have bad: "fst (readArmoredEx (armoredText ?bad)) = []"
    by (simp add: m)
  have one: "importKeys armorEx readArmoredEx updateEx 42 emptyKeyring ([] @ [?A]) =
      ([\<lparr>msgtype = success, message = ''key_import_public_success''\<rparr>],
       \<lparr>keystore = \<lparr>publicKeys = [keyA], privateKeys = []\<rparr>, primary_key = [], sync = [],
         storedPublicKeys = [armorEx keyA], storedPrivateKeys = []\<rparr>)"
    by (simp add: a ca emptyKeyring_def run_defs sortPublicFirst_def store_def sync_commit_def
        sync_add_def hasPrimaryKey_def getKeysForId_def matchesKey_def keyIdCheck_def keyA_def
        getFingerprint_def)
  note skip = t [THEN conjunct1, rule_format, of ?bad "[]" "[?A]", OF bad]
  from skip [THEN conjunct1] one
  have st: "publicKeys (keystore (snd (importKeys armorEx readArmoredEx updateEx 42 emptyKeyring
      ([] @ ?bad # [?A])))) = [keyA]"
    by simp
  have msgs: "fst (importKeys armorEx readArmoredEx updateEx 42 emptyKeyring ([] @ ?bad # [?A])) =
      [\<lparr>msgtype = error, message = ''key_import_public_read''\<rparr>,
       \<lparr>msgtype = success, message = ''key_import_public_success''\<rparr>]"
    by (simp add: a m ca emptyKeyring_def run_defs sortPublicFirst_def store_def sync_commit_def
        sync_add_def hasPrimaryKey_def getKeysForId_def matchesKey_def keyIdCheck_def keyA_def
        getFingerprint_def)
  from scenario st msgs show ?thesis by (simp add: batchEx_def)
qed





subsection \<open>Backup and restore\<close>

text \<open>
  Claim C8, as amended. A message that does not have the structure is rejected with the
  error of the illegal structure, whatever \<open>decrypt\<close> would do: decryption is not
  attempted. A message with the structure that the code does not decrypt is rejected with
  the code \<open>WRONG_RESTORE_CODE\<close>, a different error. The structure is: two packets, a
  symmetric-key encrypted session key packet with the cipher aes256 whose session key is
  either not encrypted or encrypted with aes256, and an integrity protected data packet.
\<close>

theorem restorePrivateKeyBackup_structure:
  "(readArmored block = Inr packets \<and> \<not> backupStructure packets \<longrightarrow>
      (\<forall>decrypt. restorePrivateKeyBackup readArmored decrypt newKey mapError block code =
         Inl (mapError (Thrown ''Illegal private key backup structure.'' None)))) \<and>
   (readArmored block = Inr packets \<and> backupStructure packets \<and> decrypt packets code = None \<longrightarrow>
      restorePrivateKeyBackup readArmored decrypt newKey mapError block code =
        Inl (mapError (Thrown ''Could not decrypt message with this restore code''
                         (Some ''WRONG_RESTORE_CODE'')))) \<and>
   backupStructure packets =
     (\<exists>encAlg p1. packets = [SymEncryptedSessionKey ''aes256'' encAlg, p1] \<and>
        (encAlg = None \<or> encAlg = Some ''aes256'') \<and> tag p1 = 18) \<and>
   Thrown ''Illegal private key backup structure.'' None \<noteq>
     Thrown ''Could not decrypt message with this restore code'' (Some ''WRONG_RESTORE_CODE'')"
proof -
  have "backupStructure packets =
     (\<exists>encAlg p1. packets = [SymEncryptedSessionKey ''aes256'' encAlg, p1] \<and>
        (encAlg = None \<or> encAlg = Some ''aes256'') \<and> tag p1 = 18)"
    by (induction packets rule: backupStructure.induct) auto
  then show ?thesis
    by (simp add: restorePrivateKeyBackup_def)
qed

text \<open>The theorem of C8 on a message of one packet and on a backup restored with another code.\<close>

theorem restorePrivateKeyBackup_structure_witness:
  "restorePrivateKeyBackup Inr decryptBackupEx newKeyEx (\<lambda>e. e) [Literal ''Version: 1''] ''ABCDEFGHIJKLMNOPQRSTUVWXYZ'' =
     Inl (Thrown ''Illegal private key backup structure.'' None) \<and>
   restorePrivateKeyBackup Inr decryptBackupEx newKeyEx (\<lambda>e. e)
     (symEncryptEx (toPacketlistEx keyP) ''ABCDEFGHIJKLMNOPQRSTUVWXYZ'') ''ZYXWVUTSRQPONMLKJIHGFEDCBA'' =
     Inl (Thrown ''Could not decrypt message with this restore code'' (Some ''WRONG_RESTORE_CODE''))"
proof -
  have 1: "restorePrivateKeyBackup Inr decryptBackupEx newKeyEx (\<lambda>e. e) [Literal ''Version: 1'']
      ''ABCDEFGHIJKLMNOPQRSTUVWXYZ'' = Inl (Thrown ''Illegal private key backup structure.'' None)"
    using restorePrivateKeyBackup_structure [where readArmored = Inr and block = "[Literal ''Version: 1'']"
        and packets = "[Literal ''Version: 1'']" and newKey = newKeyEx and mapError = "\<lambda>e. e"
        and code = "''ABCDEFGHIJKLMNOPQRSTUVWXYZ''", THEN conjunct1, rule_format, of decryptBackupEx]
    by simp
  have 2: "restorePrivateKeyBackup Inr decryptBackupEx newKeyEx (\<lambda>e. e)
     (symEncryptEx (toPacketlistEx keyP) ''ABCDEFGHIJKLMNOPQRSTUVWXYZ'') ''ZYXWVUTSRQPONMLKJIHGFEDCBA'' =
     Inl (Thrown ''Could not decrypt message with this restore code'' (Some ''WRONG_RESTORE_CODE''))"
    using restorePrivateKeyBackup_structure [where readArmored = Inr
        and block = "symEncryptEx (toPacketlistEx keyP) ''ABCDEFGHIJKLMNOPQRSTUVWXYZ''"
        and packets = "symEncryptEx (toPacketlistEx keyP) ''ABCDEFGHIJKLMNOPQRSTUVWXYZ''"
        and newKey = newKeyEx and mapError = "\<lambda>e. e" and decrypt = decryptBackupEx
        and code = "''ZYXWVUTSRQPONMLKJIHGFEDCBA''", THEN conjunct2, THEN conjunct1, rule_format]
    by (simp add: symEncryptEx_def)
  from 1 2 show ?thesis by simp
qed

text \<open>
  Claim C8 as stated fails: a message whose session key is itself encrypted does not have
  the structure the claim describes, and it is not rejected as malformed: it is decrypted,
  and restored with the right code.
\<close>

theorem restorePrivateKeyBackup_wrapped_counterexample:
  "\<not> specBackupStructure wrappedBackup \<and>
   restorePrivateKeyBackup Inr decryptBackupEx newKeyEx (\<lambda>e. e) wrappedBackup ''ABCDEFGHIJKLMNOPQRSTUVWXYZ'' =
     Inr \<lparr>key = keyP, password = Some ''secret''\<rparr> \<and>
   restorePrivateKeyBackup Inr decryptBackupEx newKeyEx (\<lambda>e. e) wrappedBackup ''ZYXWVUTSRQPONMLKJIHGFEDCBA'' =
     Inl (Thrown ''Could not decrypt message with this restore code'' (Some ''WRONG_RESTORE_CODE''))"
  by (simp add: wrappedBackup_def restorePrivateKeyBackup_def newKeyEx_def getPwd_def
      parseMetaInfo_def isSpace_def)

text \<open>
  Claim C9 on the passphrase \<open>a: b\<close>, with a library that seals and opens symbolically:
  the backup restores the key, and the passphrase \<open>a\<close>.
\<close>

theorem backup_roundtrip_loses_passphrase:
  "restorePrivateKeyBackup Inr decryptBackupEx newKeyEx (\<lambda>e. e)
     (armoredMessage (createPrivateKeyBackup symEncryptEx (\<lambda>m. m) toPacketlistEx
        ''ABCDEFGHIJKLMNOPQRSTUVWXYZ'' keyP ''a: b''))
     ''ABCDEFGHIJKLMNOPQRSTUVWXYZ'' =
   Inr \<lparr>key = keyP, password = Some ''a''\<rparr>"
  by (simp add: createPrivateKeyBackup_def setText_def symEncryptEx_def restorePrivateKeyBackup_def
      newKeyEx_def getPwd_def parseMetaInfo_def isSpace_def Let_def)

lemma backup_roundtrip_plain_passphrase:
  "restorePrivateKeyBackup Inr decryptBackupEx newKeyEx (\<lambda>e. e)
     (armoredMessage (createPrivateKeyBackup symEncryptEx (\<lambda>m. m) toPacketlistEx
        ''ABCDEFGHIJKLMNOPQRSTUVWXYZ'' keyP ''correct horse''))
     ''ABCDEFGHIJKLMNOPQRSTUVWXYZ'' =
   Inr \<lparr>key = keyP, password = Some ''correct horse''\<rparr>"
  by (simp add: createPrivateKeyBackup_def setText_def symEncryptEx_def restorePrivateKeyBackup_def
      newKeyEx_def getPwd_def parseMetaInfo_def isSpace_def Let_def)

text \<open>A carriage return in the passphrase is a line end of the literal text.\<close>

lemma backup_roundtrip_carriage_return:
  "restorePrivateKeyBackup Inr decryptBackupEx newKeyEx (\<lambda>e. e)
     (armoredMessage (createPrivateKeyBackup symEncryptEx (\<lambda>m. m) toPacketlistEx
        ''ABCDEFGHIJKLMNOPQRSTUVWXYZ'' keyP (''a'' @ [CHR 0x0D] @ ''b'')))
     ''ABCDEFGHIJKLMNOPQRSTUVWXYZ'' =
   Inr \<lparr>key = keyP, password = Some ''a''\<rparr>"
  by (simp add: createPrivateKeyBackup_def setText_def symEncryptEx_def restorePrivateKeyBackup_def
      newKeyEx_def getPwd_def parseMetaInfo_def isSpace_def Let_def)

subsection \<open>Applying a payload twice\<close>















lemma replaceFirst_member:
  "\<exists>x \<in> set ks. P x \<Longrightarrow> k' \<in> set (replaceFirst P k' ks)"
  by (induction ks) auto

lemma replaceFirst_keeps:
  "x \<in> set ks \<Longrightarrow> \<not> P x \<Longrightarrow> x \<in> set (replaceFirst P k' ks)"
  by (induction ks) auto

lemma replaceFirst_same:
  "\<forall>x \<in> set ks. P x \<longrightarrow> x = k' \<Longrightarrow> replaceFirst P k' ks = ks"
  by (induction ks) auto






lemma same_fingerprint: "primaryKey k' = primaryKey k \<Longrightarrow> getFingerprint k' = getFingerprint k"
  by (simp add: getFingerprint_def)




























end
